theory Spec2Isabelle
  imports Complex_Main "HOL-Library.Signed_Division"
begin

section \<open>Dates and day keys\<close>

text \<open>
  The heatmap code reads a JavaScript \<open>Date\<close> only through its accessors: the local
  calendar fields (\<open>getFullYear\<close>, \<open>getMonth\<close>, \<open>getDate\<close>, \<open>getHours\<close>, \<open>getMinutes\<close>)
  and, where two dates are compared with \<open><\<close> or \<open>>\<close>, the millisecond timestamp
  \<open>getTime\<close>. A date is therefore a record of what the accessors return. Intensities are
  modelled as real numbers, the values the doubles of the source approximate.
\<close>

record Date =
  getTime :: int
  getFullYear :: nat
  getMonth :: nat
  getDate :: nat
  getHours :: nat
  getMinutes :: nat

abbreviation MINUTES_PER_DAY :: nat where
  "MINUTES_PER_DAY \<equiv> 1440"

definition timeToMinutes :: "Date \<Rightarrow> nat" where
  "timeToMinutes date = getHours date * 60 + getMinutes date"

text \<open>\<open>String(n)\<close> for a non-negative integer, and \<open>padStart\<close> with a one-character filler.\<close>

fun String_nat :: "nat \<Rightarrow> string" where
  "String_nat n =
     (if n < 10 then [''0123456789'' ! n]
      else String_nat (n div 10) @ [''0123456789'' ! (n mod 10)])"

definition padStart :: "nat \<Rightarrow> char \<Rightarrow> string \<Rightarrow> string" where
  "padStart targetLength padChar s = replicate (targetLength - length s) padChar @ s"

definition getDateString :: "Date \<Rightarrow> string" where
  "getDateString date =
     String_nat (getFullYear date) @ ''-''
       @ padStart 2 CHR ''0'' (String_nat (getMonth date + 1)) @ ''-''
       @ padStart 2 CHR ''0'' (String_nat (getDate date))"

section \<open>Aggregator\<close>

text \<open>
  \<open>minuteDays[m].add(dateStr)\<close>. Every index the loops below produce is smaller than
  1440, the length of the array they are given, so the read never leaves the array.
\<close>

definition addDay :: "string \<Rightarrow> nat \<Rightarrow> string set list \<Rightarrow> string set list" where
  "addDay dateStr m minuteDays = minuteDays[m := insert dateStr (minuteDays ! m)]"

definition markMinuteRange ::
  "string set list \<Rightarrow> nat \<Rightarrow> nat \<Rightarrow> string \<Rightarrow> string set list" where
  "markMinuteRange minuteDays startMinute durationMinutes dateStr =
     (let endMinute = startMinute + durationMinutes in
      if endMinute \<le> MINUTES_PER_DAY then
        fold (addDay dateStr) [startMinute..<endMinute] minuteDays
      else
        (let firstSegment = fold (addDay dateStr) [startMinute..<MINUTES_PER_DAY] minuteDays;
             wrappedEnd = endMinute mod MINUTES_PER_DAY
         in fold (addDay dateStr) [0..<wrappedEnd] firstSegment))"

text \<open>
  Activity records as ingestion produces them: an interval kind carries \<open>start\<close> and a
  whole, positive \<open>durationMinutes\<close> (the parsers drop every row whose duration is not a
  number or is \<open>\<le> 0\<close>); an instant kind carries \<open>time\<close>.
\<close>

record duration_activity =
  start :: Date
  durationMinutes :: nat

record instant_activity =
  time :: Date

record heatmap_result =
  minuteDays :: "string set list"
  uniqueDays :: "string set"
  totalCount :: nat

text \<open>
  \<open>Array(MINUTES_PER_DAY).fill(null).map(() => new Set())\<close>, and the body of the loop over
  the activities, which updates the pair of \<open>minuteDays\<close> and \<open>uniqueDays\<close>.
\<close>

definition emptyMinuteDays :: "string set list" where
  "emptyMinuteDays = replicate MINUTES_PER_DAY {}"

definition durationBody ::
  "duration_activity \<Rightarrow> string set list \<times> string set \<Rightarrow> string set list \<times> string set" where
  "durationBody activity = (\<lambda>(minuteDays', uniqueDays').
     (let startMinute = timeToMinutes (start activity);
          dateStr = getDateString (start activity)
      in (markMinuteRange minuteDays' startMinute (durationMinutes activity) dateStr,
          insert dateStr uniqueDays')))"

definition calculateDurationHeatmap :: "duration_activity list \<Rightarrow> heatmap_result" where
  "calculateDurationHeatmap activities =
     (let (minuteDays', uniqueDays') = fold durationBody activities (emptyMinuteDays, {})
      in \<lparr>minuteDays = minuteDays', uniqueDays = uniqueDays',
          totalCount = length activities\<rparr>)"

text \<open>
  The instant window runs over possibly negative minutes; \<open>%\<close> of JavaScript truncates
  towards zero, which is \<open>smod\<close> on the integers.
\<close>

abbreviation HALF_WINDOW :: int where
  "HALF_WINDOW \<equiv> 7"

definition normalizedMinute :: "int \<Rightarrow> nat" where
  "normalizedMinute m =
     nat (((m smod int MINUTES_PER_DAY) + int MINUTES_PER_DAY) smod int MINUTES_PER_DAY)"

definition instantBody ::
  "instant_activity \<Rightarrow> string set list \<times> string set \<Rightarrow> string set list \<times> string set" where
  "instantBody activity = (\<lambda>(minuteDays', uniqueDays').
     (let minute = int (timeToMinutes (time activity));
          dateStr = getDateString (time activity)
      in (fold (\<lambda>m. addDay dateStr (normalizedMinute m))
            [minute - HALF_WINDOW .. minute + HALF_WINDOW] minuteDays',
          insert dateStr uniqueDays')))"

definition calculateInstantHeatmap :: "instant_activity list \<Rightarrow> heatmap_result" where
  "calculateInstantHeatmap activities =
     (let (minuteDays', uniqueDays') = fold instantBody activities (emptyMinuteDays, {})
      in \<lparr>minuteDays = minuteDays', uniqueDays = uniqueDays',
          totalCount = length activities\<rparr>)"

section \<open>Segmenter\<close>

record run =
  startMinute :: nat
  endMinute :: nat
  intensity :: real

text \<open>One pass of the scanning loop at minute \<open>m\<close>, on \<open>(runs, runStart, runIntensity)\<close>.\<close>

definition runStep ::
  "real list \<Rightarrow> real \<Rightarrow> nat \<Rightarrow> run list \<times> nat \<times> real \<Rightarrow> run list \<times> nat \<times> real" where
  "runStep intensities threshold m = (\<lambda>(runs, runStart, runIntensity).
     (let currentIntensity = intensities ! m in
      if \<bar>currentIntensity - runIntensity\<bar> > threshold then
        ((if runIntensity > 0
          then runs @ [\<lparr>startMinute = runStart, endMinute = m, intensity = runIntensity\<rparr>]
          else runs),
         m, currentIntensity)
      else (runs, runStart, runIntensity)))"

definition findIntensityRuns :: "real list \<Rightarrow> real \<Rightarrow> run list" where
  "findIntensityRuns intensities threshold =
     (if length intensities = 0 then []
      else
        (let (runs, runStart, runIntensity) =
               fold (runStep intensities threshold) [1..<length intensities]
                 ([], 0, intensities ! 0)
         in if runIntensity > 0
            then runs @ [\<lparr>startMinute = runStart, endMinute = MINUTES_PER_DAY,
                          intensity = runIntensity\<rparr>]
            else runs))"

text \<open>The tolerance \<open>render\<close> leaves to the default parameter.\<close>

definition defaultThreshold :: real where
  "defaultThreshold = 2 / 100"

section \<open>All heatmaps\<close>

text \<open>
  The application state and the filter always hold a list for each of the five kinds, so
  the object \<open>allActivities\<close> is a record of five lists and the test
  \<open>allActivities[type] && allActivities[type].length > 0\<close> is the test on the length.
  The result object is keyed by the kind's name. The \<open>dateRange\<close> field of the output,
  which no property below reads, is left out.
\<close>

record all_activities =
  sleep :: "duration_activity list"
  nursing :: "duration_activity list"
  pumping :: "duration_activity list"
  bottle :: "instant_activity list"
  diaper :: "instant_activity list"

record heatmap_data = heatmap_result +
  intensities :: "real list"
  color :: "string option"
  name :: "string option"

record heatmaps_output =
  heatmaps :: "string \<rightharpoonup> heatmap_data"
  totalDays :: nat
  allUniqueDays :: "string set"

definition ACTIVITY_COLORS :: "string \<rightharpoonup> string" where
  "ACTIVITY_COLORS = map_of
     [(''sleep'', ''#66BB6A''), (''nursing'', ''#F48FB1''), (''pumping'', ''#CE93D8''),
      (''bottle'', ''#64B5F6''), (''diaper'', ''#FFB74D'')]"

definition ACTIVITY_NAMES :: "string \<rightharpoonup> string" where
  "ACTIVITY_NAMES = map_of
     [(''sleep'', ''Sleep''), (''nursing'', ''Nursing''), (''pumping'', ''Pumping''),
      (''bottle'', ''Bottle''), (''diaper'', ''Diaper'')]"

text \<open>
  The bodies of the loops over \<open>durationTypes\<close> and \<open>instantTypes\<close>, on the pair of
  \<open>heatmaps\<close> and \<open>allUniqueDays\<close>; then the function mapped over \<open>minuteDays\<close> and the
  three fields the last loop adds to each entry.
\<close>

definition durationType ::
  "string \<Rightarrow> duration_activity list \<Rightarrow> (string \<rightharpoonup> heatmap_result) \<times> string set
     \<Rightarrow> (string \<rightharpoonup> heatmap_result) \<times> string set" where
  "durationType kind acts = (\<lambda>(heatmaps', allUniqueDays').
     if length acts > 0 then
       (let result = calculateDurationHeatmap acts
        in (heatmaps'(kind \<mapsto> result), allUniqueDays' \<union> uniqueDays result))
     else (heatmaps', allUniqueDays'))"

definition instantType ::
  "string \<Rightarrow> instant_activity list \<Rightarrow> (string \<rightharpoonup> heatmap_result) \<times> string set
     \<Rightarrow> (string \<rightharpoonup> heatmap_result) \<times> string set" where
  "instantType kind acts = (\<lambda>(heatmaps', allUniqueDays').
     if length acts > 0 then
       (let result = calculateInstantHeatmap acts
        in (heatmaps'(kind \<mapsto> result), allUniqueDays' \<union> uniqueDays result))
     else (heatmaps', allUniqueDays'))"

definition intensityOf :: "nat \<Rightarrow> string set \<Rightarrow> real" where
  "intensityOf totalDays' days =
     (if totalDays' > 0 then min 1 (real (card days) / real totalDays') else 0)"

definition withIntensities :: "string \<Rightarrow> nat \<Rightarrow> heatmap_result \<Rightarrow> heatmap_data" where
  "withIntensities kind totalDays' data =
     heatmap_result.extend data
       (heatmap_data.fields (map (intensityOf totalDays') (minuteDays data))
          (ACTIVITY_COLORS kind) (ACTIVITY_NAMES kind))"

definition calculateAllHeatmaps :: "all_activities \<Rightarrow> heatmaps_output" where
  "calculateAllHeatmaps allActivities =
     (let s1 = durationType ''sleep'' (sleep allActivities) (Map.empty, {});
          s2 = durationType ''nursing'' (nursing allActivities) s1;
          s3 = durationType ''pumping'' (pumping allActivities) s2;
          s4 = instantType ''bottle'' (bottle allActivities) s3;
          s5 = instantType ''diaper'' (diaper allActivities) s4;
          totalDays' = card (snd s5)
      in \<lparr>heatmaps = (\<lambda>kind. map_option (withIntensities kind totalDays') (fst s5 kind)),
          totalDays = totalDays',
          allUniqueDays = snd s5\<rparr>)"

section \<open>Failure and division as JavaScript has them\<close>

text \<open>
  The aggregation has no \<open>throw\<close>; the one step of it that can fail at run time is
  \<open>minuteDays[m].add(dateStr)\<close>, a \<open>TypeError\<close> when \<open>m\<close> is outside the array and
  \<open>minuteDays[m]\<close> is \<open>undefined\<close>. The functions of the aggregator are given a second
  time with that failure as a value, each loop stopping at the first failure as the
  exception would; the theorems below show that the failure never occurs, so that the
  functions above are what the program computes.
\<close>

datatype error = TypeError

definition addDay_checked :: "string \<Rightarrow> nat \<Rightarrow> string set list \<Rightarrow> error + string set list" where
  "addDay_checked dateStr m slots =
     (if m < length slots then Inr (slots[m := insert dateStr (slots ! m)]) else Inl TypeError)"

fun forEach :: "('a \<Rightarrow> 's \<Rightarrow> error + 's) \<Rightarrow> 'a list \<Rightarrow> 's \<Rightarrow> error + 's" where
  "forEach body [] s = Inr s"
| "forEach body (x # xs) s =
     (case body x s of Inl e \<Rightarrow> Inl e | Inr s' \<Rightarrow> forEach body xs s')"

definition markMinuteRange_checked ::
  "string set list \<Rightarrow> nat \<Rightarrow> nat \<Rightarrow> string \<Rightarrow> error + string set list" where
  "markMinuteRange_checked slots startMinute' durationMinutes' dateStr =
     (let endMinute' = startMinute' + durationMinutes' in
      if endMinute' \<le> MINUTES_PER_DAY then
        forEach (addDay_checked dateStr) [startMinute'..<endMinute'] slots
      else
        (case forEach (addDay_checked dateStr) [startMinute'..<MINUTES_PER_DAY] slots of
           Inl e \<Rightarrow> Inl e
         | Inr firstSegment \<Rightarrow>
             forEach (addDay_checked dateStr) [0..<endMinute' mod MINUTES_PER_DAY]
               firstSegment))"

definition durationBody_checked ::
  "duration_activity \<Rightarrow> string set list \<times> string set
     \<Rightarrow> error + string set list \<times> string set" where
  "durationBody_checked activity = (\<lambda>(slots, days).
     (let startMinute' = timeToMinutes (start activity);
          dateStr = getDateString (start activity)
      in case markMinuteRange_checked slots startMinute' (durationMinutes activity) dateStr of
           Inl e \<Rightarrow> Inl e
         | Inr slots' \<Rightarrow> Inr (slots', insert dateStr days)))"

definition calculateDurationHeatmap_checked ::
  "duration_activity list \<Rightarrow> error + heatmap_result" where
  "calculateDurationHeatmap_checked acts =
     (case forEach durationBody_checked acts (emptyMinuteDays, {}) of
        Inl e \<Rightarrow> Inl e
      | Inr (slots, days) \<Rightarrow>
          Inr \<lparr>minuteDays = slots, uniqueDays = days, totalCount = length acts\<rparr>)"

definition instantBody_checked ::
  "instant_activity \<Rightarrow> string set list \<times> string set
     \<Rightarrow> error + string set list \<times> string set" where
  "instantBody_checked activity = (\<lambda>(slots, days).
     (let minute = int (timeToMinutes (time activity));
          dateStr = getDateString (time activity)
      in case forEach (\<lambda>m. addDay_checked dateStr (normalizedMinute m))
                [minute - HALF_WINDOW .. minute + HALF_WINDOW] slots of
           Inl e \<Rightarrow> Inl e
         | Inr slots' \<Rightarrow> Inr (slots', insert dateStr days)))"

definition calculateInstantHeatmap_checked ::
  "instant_activity list \<Rightarrow> error + heatmap_result" where
  "calculateInstantHeatmap_checked acts =
     (case forEach instantBody_checked acts (emptyMinuteDays, {}) of
        Inl e \<Rightarrow> Inl e
      | Inr (slots, days) \<Rightarrow>
          Inr \<lparr>minuteDays = slots, uniqueDays = days, totalCount = length acts\<rparr>)"

definition durationType_checked ::
  "string \<Rightarrow> duration_activity list \<Rightarrow> (string \<rightharpoonup> heatmap_result) \<times> string set
     \<Rightarrow> error + (string \<rightharpoonup> heatmap_result) \<times> string set" where
  "durationType_checked kind acts = (\<lambda>(entries, days).
     if length acts > 0 then
       (case calculateDurationHeatmap_checked acts of
          Inl e \<Rightarrow> Inl e
        | Inr result \<Rightarrow> Inr (entries(kind \<mapsto> result), days \<union> uniqueDays result))
     else Inr (entries, days))"

definition instantType_checked ::
  "string \<Rightarrow> instant_activity list \<Rightarrow> (string \<rightharpoonup> heatmap_result) \<times> string set
     \<Rightarrow> error + (string \<rightharpoonup> heatmap_result) \<times> string set" where
  "instantType_checked kind acts = (\<lambda>(entries, days).
     if length acts > 0 then
       (case calculateInstantHeatmap_checked acts of
          Inl e \<Rightarrow> Inl e
        | Inr result \<Rightarrow> Inr (entries(kind \<mapsto> result), days \<union> uniqueDays result))
     else Inr (entries, days))"

definition calculateAllHeatmaps_checked :: "all_activities \<Rightarrow> error + heatmaps_output" where
  "calculateAllHeatmaps_checked allActivities =
     (case durationType_checked ''sleep'' (sleep allActivities) (Map.empty, {}) of
        Inl e \<Rightarrow> Inl e
      | Inr s1 \<Rightarrow>
     (case durationType_checked ''nursing'' (nursing allActivities) s1 of
        Inl e \<Rightarrow> Inl e
      | Inr s2 \<Rightarrow>
     (case durationType_checked ''pumping'' (pumping allActivities) s2 of
        Inl e \<Rightarrow> Inl e
      | Inr s3 \<Rightarrow>
     (case instantType_checked ''bottle'' (bottle allActivities) s3 of
        Inl e \<Rightarrow> Inl e
      | Inr s4 \<Rightarrow>
     (case instantType_checked ''diaper'' (diaper allActivities) s4 of
        Inl e \<Rightarrow> Inl e
      | Inr s5 \<Rightarrow>
          (let totalDays' = card (snd s5)
           in Inr \<lparr>heatmaps =
                      (\<lambda>kind. map_option (withIntensities kind totalDays') (fst s5 kind)),
                    totalDays = totalDays',
                    allUniqueDays = snd s5\<rparr>))))))"

text \<open>
  A division of JavaScript never fails: a positive count divided by zero is \<open>Infinity\<close>
  and zero divided by zero is \<open>NaN\<close>, while \<open>Math.min(1, Infinity)\<close> is 1 and
  \<open>Math.min(1, NaN)\<close> is \<open>NaN\<close>. The function mapped over \<open>minuteDays\<close>, on the
  numbers of JavaScript (the set's size and the day count are non-negative integers):
\<close>

datatype number = Num real | PosInfinity | NaN

definition js_divide :: "nat \<Rightarrow> nat \<Rightarrow> number" where
  "js_divide a b =
     (if b \<noteq> 0 then Num (real a / real b) else if a = 0 then NaN else PosInfinity)"

definition Math_min_1 :: "number \<Rightarrow> number" where
  "Math_min_1 x = (case x of Num r \<Rightarrow> Num (min 1 r) | PosInfinity \<Rightarrow> Num 1 | NaN \<Rightarrow> NaN)"

definition intensityNumber :: "nat \<Rightarrow> string set \<Rightarrow> number" where
  "intensityNumber totalDays' days =
     (if totalDays' > 0 then Math_min_1 (js_divide (card days) totalDays') else Num 0)"

section \<open>Range filter\<close>

text \<open>
  The filter bounds are dates that are only ever compared, so the state keeps their
  timestamps; \<open>None\<close> is \<open>null\<close>. Writes to the page's input elements are not part of the
  state.
\<close>

record date_filter =
  filter_start :: "int option"
  filter_end :: "int option"

record app_state =
  activities :: all_activities
  dateFilter :: date_filter

definition getAllActivityDates :: "app_state \<Rightarrow> int list" where
  "getAllActivityDates state =
     map (\<lambda>activity. getTime (start activity)) (sleep (activities state))
     @ map (\<lambda>activity. getTime (start activity)) (nursing (activities state))
     @ map (\<lambda>activity. getTime (start activity)) (pumping (activities state))
     @ map (\<lambda>activity. getTime (time activity)) (bottle (activities state))
     @ map (\<lambda>activity. getTime (time activity)) (diaper (activities state))"

text \<open>
  \<open>Math.min(...xs)\<close> and \<open>Math.max(...xs)\<close> of the non-empty array \<open>x # xs\<close>; the
  caller returns before them when the array is empty.
\<close>

definition Math_min :: "int \<Rightarrow> int list \<Rightarrow> int" where
  "Math_min x xs = fold min xs x"

definition Math_max :: "int \<Rightarrow> int list \<Rightarrow> int" where
  "Math_max x xs = fold max xs x"

text \<open>
  \<open>thirtyDaysAgo.setDate(today.getDate() - 30)\<close> works on local time: it keeps the
  wall-clock time of day and moves the calendar date thirty days back. Local time is the
  time stamp plus the zone's offset from UTC, so the new time stamp is 30 times
  86 400 000 ms earlier, corrected by the zone's offset now minus its offset at the new
  local time: nothing where the offset is the same at both ends, an hour either way
  across a daylight-saving change. The host's zone is not part of the program, so this
  correction is the parameter \<open>offsetChange\<close>; it also takes up the instant that passes
  between the two \<open>new Date()\<close>. The clock is the parameter \<open>now\<close>.
\<close>

definition setDateThirtyBack :: "int \<Rightarrow> int \<Rightarrow> int" where
  "setDateThirtyBack t offsetChange = t - 30 * 86400000 + offsetChange"

definition initializeDateFilter :: "int \<Rightarrow> int \<Rightarrow> app_state \<Rightarrow> app_state" where
  "initializeDateFilter now offsetChange state =
     (case getAllActivityDates state of
        [] \<Rightarrow> state
      | d # ds \<Rightarrow>
        (let minDate = Math_min d ds;
             maxDate = Math_max d ds;
             today = now;
             thirtyDaysAgo = setDateThirtyBack now offsetChange;
             filterStart = (if thirtyDaysAgo > minDate then thirtyDaysAgo else minDate);
             filterEnd = (if today < maxDate then today else maxDate)
         in state\<lparr>dateFilter := \<lparr>filter_start = Some filterStart,
                                  filter_end = Some filterEnd\<rparr>\<rparr>))"

text \<open>The predicate given to \<open>filter\<close>, on the time stamp of the record's date.\<close>

definition keepActivity :: "int option \<Rightarrow> int option \<Rightarrow> int \<Rightarrow> bool" where
  "keepActivity start' end' activityDate =
     (if (case start' of None \<Rightarrow> False | Some s \<Rightarrow> activityDate < s) then False
      else if (case end' of None \<Rightarrow> False | Some e \<Rightarrow> activityDate > e) then False
      else True)"

definition getFilteredActivities :: "app_state \<Rightarrow> all_activities" where
  "getFilteredActivities state =
     (let start' = filter_start (dateFilter state);
          end' = filter_end (dateFilter state)
      in if start' = None \<and> end' = None then activities state
         else
           \<lparr>sleep = filter (\<lambda>activity. keepActivity start' end' (getTime (start activity)))
                      (sleep (activities state)),
            nursing = filter (\<lambda>activity. keepActivity start' end' (getTime (start activity)))
                        (nursing (activities state)),
            pumping = filter (\<lambda>activity. keepActivity start' end' (getTime (start activity)))
                        (pumping (activities state)),
            bottle = filter (\<lambda>activity. keepActivity start' end' (getTime (time activity)))
                       (bottle (activities state)),
            diaper = filter (\<lambda>activity. keepActivity start' end' (getTime (time activity)))
                       (diaper (activities state))\<rparr>)"

section \<open>Vocabulary of the specification\<close>

text \<open>
  What the specification means by a record covering minute \<open>m\<close>: for an interval
  kind, some minute of the half-open range from the start minute to the start minute plus
  the duration is \<open>m\<close> modulo 1440; for an instant kind, some offset of at most seven
  minutes either way from the event's minute is \<open>m\<close> modulo 1440.
\<close>

definition interval_covers :: "nat \<Rightarrow> nat \<Rightarrow> nat \<Rightarrow> bool" where
  "interval_covers s dur m = (m \<in> (\<lambda>t. t mod MINUTES_PER_DAY) ` {s..<s + dur})"

definition instant_covers :: "nat \<Rightarrow> nat \<Rightarrow> bool" where
  "instant_covers minute m =
     (int m \<in> (\<lambda>off. (int minute + off) mod int MINUTES_PER_DAY) ` {- HALF_WINDOW..HALF_WINDOW})"

text \<open>
  The day keys of every record of every kind, and a time stamp lying within two optional
  inclusive bounds.
\<close>

definition datesSeen :: "all_activities \<Rightarrow> string set" where
  "datesSeen a =
     (\<lambda>x. getDateString (start x)) ` (set (sleep a) \<union> set (nursing a) \<union> set (pumping a))
     \<union> (\<lambda>x. getDateString (time x)) ` (set (bottle a) \<union> set (diaper a))"

definition withinBounds :: "int option \<Rightarrow> int option \<Rightarrow> int \<Rightarrow> bool" where
  "withinBounds lo hi t =
     ((case lo of None \<Rightarrow> True | Some s \<Rightarrow> s \<le> t) \<and> (case hi of None \<Rightarrow> True | Some e \<Rightarrow> t \<le> e))"

section \<open>Invariants of the loops\<close>

text \<open>
  The minutes the loops of \<open>markMinuteRange\<close> visit, and what holds of the scanning
  loop of \<open>findIntensityRuns\<close> once the minutes below \<open>n\<close> are done: the open run
  starts below \<open>n\<close> and carries the value at its start, every later minute scanned so far
  is within the tolerance of it, and each closed run is positive, non-empty, ends no
  later than the open run starts, carries the value at its start and stays within the
  tolerance of it; closed runs are in order.
\<close>

definition marksMinute :: "nat \<Rightarrow> nat \<Rightarrow> nat \<Rightarrow> bool" where
  "marksMinute s dur i =
     (if s + dur \<le> MINUTES_PER_DAY then s \<le> i \<and> i < s + dur
      else (s \<le> i \<and> i < MINUTES_PER_DAY) \<or> i < (s + dur) mod MINUTES_PER_DAY)"

definition runsInv :: "real list \<Rightarrow> real \<Rightarrow> nat \<Rightarrow> run list \<times> nat \<times> real \<Rightarrow> bool" where
  "runsInv xs thr n = (\<lambda>(runs, runStart, runIntensity).
     runStart < n \<and> runIntensity = xs ! runStart
     \<and> (\<forall>m. runStart < m \<and> m < n \<longrightarrow> \<bar>xs ! m - runIntensity\<bar> \<le> thr)
     \<and> (\<forall>r \<in> set runs.
           0 < intensity r \<and> startMinute r < endMinute r \<and> endMinute r \<le> runStart
           \<and> intensity r = xs ! startMinute r
           \<and> (\<forall>m. startMinute r < m \<and> m < endMinute r \<longrightarrow> \<bar>xs ! m - intensity r\<bar> \<le> thr))
     \<and> sorted_wrt (\<lambda>a b. endMinute a \<le> startMinute b) runs)"

section \<open>Example inputs\<close>

text \<open>
  Dates are given with the time stamp of the same wall-clock time in UTC. The scenario
  of one overnight sleep, old data, recent data, two days with two overlapping sleeps on
  the first, and two sleeps of more than a day.
\<close>

definition date_2024_01_15_2000 :: Date where
  "date_2024_01_15_2000 =
     \<lparr>getTime = 1705348800000, getFullYear = 2024, getMonth = 0, getDate = 15,
      getHours = 20, getMinutes = 0\<rparr>"

definition date_2024_01_15_2300 :: Date where
  "date_2024_01_15_2300 =
     \<lparr>getTime = 1705359600000, getFullYear = 2024, getMonth = 0, getDate = 15,
      getHours = 23, getMinutes = 0\<rparr>"

definition date_2024_01_15_0800 :: Date where
  "date_2024_01_15_0800 =
     \<lparr>getTime = 1705305600000, getFullYear = 2024, getMonth = 0, getDate = 15,
      getHours = 8, getMinutes = 0\<rparr>"

definition date_2024_01_15_0820 :: Date where
  "date_2024_01_15_0820 =
     \<lparr>getTime = 1705306800000, getFullYear = 2024, getMonth = 0, getDate = 15,
      getHours = 8, getMinutes = 20\<rparr>"

definition date_2024_01_16_0820 :: Date where
  "date_2024_01_16_0820 =
     \<lparr>getTime = 1705393200000, getFullYear = 2024, getMonth = 0, getDate = 16,
      getHours = 8, getMinutes = 20\<rparr>"

definition date_2026_10_20_0830 :: Date where
  "date_2026_10_20_0830 =
     \<lparr>getTime = 1792485000000, getFullYear = 2026, getMonth = 9, getDate = 20,
      getHours = 8, getMinutes = 30\<rparr>"

definition date_2026_11_01_0900 :: Date where
  "date_2026_11_01_0900 =
     \<lparr>getTime = 1793523600000, getFullYear = 2026, getMonth = 10, getDate = 1,
      getHours = 9, getMinutes = 0\<rparr>"

definition overnightActivities :: "Date \<Rightarrow> all_activities" where
  "overnightActivities d =
     \<lparr>sleep = [\<lparr>start = d, durationMinutes = 300\<rparr>], nursing = [], pumping = [],
      bottle = [], diaper = []\<rparr>"

definition twoDayActivities :: all_activities where
  "twoDayActivities =
     \<lparr>sleep = [\<lparr>start = date_2024_01_15_0800, durationMinutes = 60\<rparr>,
               \<lparr>start = date_2024_01_15_0820, durationMinutes = 30\<rparr>],
      nursing = [], pumping = [], bottle = [],
      diaper = [\<lparr>time = date_2024_01_16_0820\<rparr>]\<rparr>"

definition date_2024_01_15_2200 :: Date where
  "date_2024_01_15_2200 =
     \<lparr>getTime = 1705356000000, getFullYear = 2024, getMonth = 0, getDate = 15,
      getHours = 22, getMinutes = 0\<rparr>"

definition longSleepActivities :: all_activities where
  "longSleepActivities =
     \<lparr>sleep = [\<lparr>start = date_2024_01_15_2300, durationMinutes = 1500\<rparr>,
               \<lparr>start = date_2024_01_15_2200, durationMinutes = 1560\<rparr>],
      nursing = [], pumping = [], bottle = [], diaper = []\<rparr>"

definition noFilter :: date_filter where
  "noFilter = \<lparr>filter_start = None, filter_end = None\<rparr>"

definition staleState :: app_state where
  "staleState = \<lparr>activities = overnightActivities date_2024_01_15_2000, dateFilter = noFilter\<rparr>"

definition recentState :: app_state where
  "recentState =
     \<lparr>activities =
        \<lparr>sleep = [\<lparr>start = date_2026_10_20_0830, durationMinutes = 45\<rparr>], nursing = [],
         pumping = [], bottle = [], diaper = [\<lparr>time = date_2026_11_01_0900\<rparr>]\<rparr>,
      dateFilter = noFilter\<rparr>"

definition twoDayState :: app_state where
  "twoDayState =
     \<lparr>activities = twoDayActivities,
      dateFilter = \<lparr>filter_start = Some 1705306800000, filter_end = None\<rparr>\<rparr>"

text \<open>The two days of records behind a lower bound of 3 November 2026.\<close>

definition filteredOutState :: app_state where
  "filteredOutState =
     \<lparr>activities = twoDayActivities,
      dateFilter = \<lparr>filter_start = Some 1793707200000, filter_end = None\<rparr>\<rparr>"

text \<open>
  The same old record and the same instant of 3 November 2026 on a host in New York,
  where the instant is 07:00 EST and thirty days back, 4 October, is on daylight-saving
  time: the offset now (-5 h) minus the offset then (-4 h) is minus one hour.
\<close>

definition date_2024_01_15_2000_EST :: Date where
  "date_2024_01_15_2000_EST =
     \<lparr>getTime = 1705366800000, getFullYear = 2024, getMonth = 0, getDate = 15,
      getHours = 20, getMinutes = 0\<rparr>"

definition staleStateNewYork :: app_state where
  "staleStateNewYork =
     \<lparr>activities = overnightActivities date_2024_01_15_2000_EST, dateFilter = noFilter\<rparr>"

definition offsetChangeNewYork :: int where
  "offsetChangeNewYork = - 3600000"

text \<open>3 November 2026, 12:00 UTC.\<close>

definition exampleNow :: int where
  "exampleNow = 1793707200000"

declare String_nat.simps [simp del]

section \<open>The segmenter\<close>

lemma runsInv_init: "runsInv xs thr 1 ([], 0, xs ! 0)"
  by (simp add: runsInv_def)

lemma runsInv_step:
  assumes "runsInv xs thr n s"
  shows "runsInv xs thr (Suc n) (runStep xs thr n s)"
proof -
  obtain runs rs ri where s: "s = (runs, rs, ri)" by (cases s) auto
  from assms s have inv:
    "rs < n" "ri = xs ! rs"
    "\<forall>m. rs < m \<and> m < n \<longrightarrow> \<bar>xs ! m - ri\<bar> \<le> thr"
    "\<forall>r \<in> set runs. 0 < intensity r \<and> startMinute r < endMinute r \<and> endMinute r \<le> rs
           \<and> intensity r = xs ! startMinute r
           \<and> (\<forall>m. startMinute r < m \<and> m < endMinute r \<longrightarrow> \<bar>xs ! m - intensity r\<bar> \<le> thr)"
    "sorted_wrt (\<lambda>a b. endMinute a \<le> startMinute b) runs"
    unfolding runsInv_def by blast+
  show ?thesis
  proof (cases "\<bar>xs ! n - ri\<bar> > thr")
    case False
    then have "runStep xs thr n s = (runs, rs, ri)"
      by (simp add: runStep_def s)
    moreover have "\<forall>m. rs < m \<and> m < Suc n \<longrightarrow> \<bar>xs ! m - ri\<bar> \<le> thr"
      using inv(3) False by (auto simp: less_Suc_eq)
    ultimately show ?thesis
      using inv by (auto simp: runsInv_def)
  next
    case True
    show ?thesis
    proof (cases "ri > 0")
      case False
      with True have "runStep xs thr n s = (runs, n, xs ! n)"
        by (simp add: runStep_def s)
      moreover have "\<forall>r \<in> set runs. endMinute r \<le> n"
        using inv(1,4) by fastforce
      ultimately show ?thesis
        using inv by (auto simp: runsInv_def)
    next
      case pos: True
      let ?r = "\<lparr>startMinute = rs, endMinute = n, intensity = ri\<rparr>"
      from True pos have "runStep xs thr n s = (runs @ [?r], n, xs ! n)"
        by (simp add: runStep_def s)
      moreover have "\<forall>r \<in> set runs. endMinute r \<le> n"
        using inv(1,4) by fastforce
      moreover have "sorted_wrt (\<lambda>a b. endMinute a \<le> startMinute b) (runs @ [?r])"
        using inv(4,5) by (simp add: sorted_wrt_append)
      ultimately show ?thesis
        using inv pos by (auto simp: runsInv_def)
    qed
  qed
qed

lemma runsInv_fold:
  "runsInv xs thr (Suc n) (fold (runStep xs thr) [1..<Suc n] ([], 0, xs ! 0))"
proof (induction n)
  case 0
  show ?case using runsInv_init [of xs thr] by simp
next
  case (Suc n)
  have "[1..<Suc (Suc n)] = [1..<Suc n] @ [Suc n]" by simp
  then show ?case
    using runsInv_step [OF Suc] by (simp del: upt_Suc)
qed

lemma findIntensityRuns_final:
  assumes "xs \<noteq> []"
  obtains runs rs ri where
    "runsInv xs thr (length xs) (runs, rs, ri)"
    "findIntensityRuns xs thr =
       (if ri > 0 then runs @ [\<lparr>startMinute = rs, endMinute = MINUTES_PER_DAY, intensity = ri\<rparr>]
        else runs)"
proof -
  obtain n where n: "length xs = Suc n"
    using assms by (cases xs) auto
  obtain runs rs ri where f:
    "fold (runStep xs thr) [1..<length xs] ([], 0, xs ! 0) = (runs, rs, ri)"
    by (metis prod_cases3)
  have "runsInv xs thr (length xs) (runs, rs, ri)"
    using runsInv_fold [of xs thr n] f n by simp
  moreover have "findIntensityRuns xs thr =
       (if ri > 0 then runs @ [\<lparr>startMinute = rs, endMinute = MINUTES_PER_DAY, intensity = ri\<rparr>]
        else runs)"
    using assms f by (simp add: findIntensityRuns_def)
  ultimately show ?thesis using that by blast
qed

lemma findIntensityRuns_Nil: "findIntensityRuns [] thr = []"
  by (simp add: findIntensityRuns_def)

lemma runStep_same:
  "\<bar>xs ! m - ri\<bar> \<le> thr \<Longrightarrow> runStep xs thr m (runs, rs, ri) = (runs, rs, ri)"
  by (simp add: runStep_def)

lemma runStep_jump:
  "\<bar>xs ! m - ri\<bar> > thr \<Longrightarrow>
   runStep xs thr m (runs, rs, ri) =
     ((if ri > 0 then runs @ [\<lparr>startMinute = rs, endMinute = m, intensity = ri\<rparr>] else runs),
      m, xs ! m)"
  by (simp add: runStep_def)

lemma upt_split: "a \<le> b \<Longrightarrow> b \<le> c \<Longrightarrow> [a..<c] = [a..<b] @ [b..<c]"
  using upt_add_eq_append [of a b "c - b"] by simp

lemma fold_runStep_same:
  "\<forall>m. a \<le> m \<and> m < b \<longrightarrow> \<bar>xs ! m - ri\<bar> \<le> thr \<Longrightarrow>
   fold (runStep xs thr) [a..<b] (runs, rs, ri) = (runs, rs, ri)"
proof (induction b)
  case 0
  then show ?case by simp
next
  case (Suc b)
  show ?case
  proof (cases "a \<le> b")
    case True
    then have "[a..<Suc b] = [a..<b] @ [b]" by simp
    moreover have "fold (runStep xs thr) [a..<b] (runs, rs, ri) = (runs, rs, ri)"
      using Suc by simp
    moreover have "\<bar>xs ! b - ri\<bar> \<le> thr" using Suc.prems True by simp
    ultimately show ?thesis by (simp add: runStep_same del: upt_Suc)
  next
    case False
    then show ?thesis by simp
  qed
qed

lemma fold_runStep_jump:
  assumes "a \<le> b" "b < c"
    and "\<forall>m. a \<le> m \<and> m < b \<longrightarrow> \<bar>xs ! m - ri\<bar> \<le> thr"
    and "\<bar>xs ! b - ri\<bar> > thr"
  shows "fold (runStep xs thr) [a..<c] (runs, rs, ri) =
         fold (runStep xs thr) [Suc b..<c]
           ((if ri > 0 then runs @ [\<lparr>startMinute = rs, endMinute = b, intensity = ri\<rparr>] else runs),
            b, xs ! b)"
proof -
  have "[a..<c] = [a..<b] @ b # [Suc b..<c]"
    using assms(1,2) upt_split [of a b c] by (simp add: upt_conv_Cons)
  then show ?thesis
    using fold_runStep_same [OF assms(3), of runs rs] runStep_jump [OF assms(4), of runs rs]
    by simp
qed

lemma findIntensityRuns_overnight:
  assumes len: "length xs = MINUTES_PER_DAY"
    and prof: "\<forall>m < MINUTES_PER_DAY. xs ! m = (if m < 60 \<or> 1200 \<le> m then 1 else 0)"
  shows "findIntensityRuns xs defaultThreshold =
           [\<lparr>startMinute = 0, endMinute = 60, intensity = 1\<rparr>,
            \<lparr>startMinute = 1200, endMinute = MINUTES_PER_DAY, intensity = 1\<rparr>]"
proof -
  let ?t = "2 / 100 :: real"
  have x0: "xs ! 0 = 1" "xs ! 60 = 0" "xs ! 1200 = 1" using prof by simp_all
  have a: "\<forall>m. 1 \<le> m \<and> m < 60 \<longrightarrow> \<bar>xs ! m - 1\<bar> \<le> ?t" using prof by simp
  have b: "\<forall>m. 61 \<le> m \<and> m < 1200 \<longrightarrow> \<bar>xs ! m - 0\<bar> \<le> ?t" using prof by simp
  have c: "\<forall>m. 1201 \<le> m \<and> m < 1440 \<longrightarrow> \<bar>xs ! m - 1\<bar> \<le> ?t" using prof by simp
  have "fold (runStep xs ?t) [1..<1440] ([], 0, 1) =
        fold (runStep xs ?t) [Suc 60..<1440]
          ([\<lparr>startMinute = 0, endMinute = 60, intensity = 1\<rparr>], 60, 0)"
    using fold_runStep_jump [of 1 60 1440 xs 1 ?t "[]" 0] a x0 by simp
  also have "\<dots> = fold (runStep xs ?t) [Suc 1200..<1440]
          ([\<lparr>startMinute = 0, endMinute = 60, intensity = 1\<rparr>], 1200, 1)"
    using fold_runStep_jump [of 61 1200 1440 xs 0 ?t
            "[\<lparr>startMinute = 0, endMinute = 60, intensity = 1\<rparr>]" 60] b x0 by simp
  also have "\<dots> = ([\<lparr>startMinute = 0, endMinute = 60, intensity = 1\<rparr>], 1200, 1)"
    using fold_runStep_same [of 1201 1440 xs 1 ?t] c by simp
  finally show ?thesis
    using len x0 by (simp add: findIntensityRuns_def defaultThreshold_def)
qed

text \<open>
  C6. For an intensity array of at most 1440 samples, and so for every array of exactly
  1440, and for every tolerance: each emitted segment has an intensity strictly greater
  than 0, starts strictly before it ends and ends by minute 1440; the segments start in
  strictly increasing order and none begins before its predecessor has ended. A run whose
  intensity is not positive therefore never appears in the list.
\<close>

theorem segment_list_invariant:
  assumes "length xs \<le> MINUTES_PER_DAY"
  shows "(\<forall>r \<in> set (findIntensityRuns xs thr).
            0 < intensity r \<and> startMinute r < endMinute r \<and> endMinute r \<le> MINUTES_PER_DAY)
         \<and> sorted_wrt (\<lambda>a b. startMinute a < startMinute b \<and> endMinute a \<le> startMinute b)
             (findIntensityRuns xs thr)"
proof (cases "xs = []")
  case True
  then show ?thesis by (simp add: findIntensityRuns_Nil)
next
  case False
  then obtain runs rs ri where
    inv: "runsInv xs thr (length xs) (runs, rs, ri)" and
    res: "findIntensityRuns xs thr =
       (if ri > 0 then runs @ [\<lparr>startMinute = rs, endMinute = MINUTES_PER_DAY, intensity = ri\<rparr>]
        else runs)"
    by (rule findIntensityRuns_final)
  from inv have rs: "rs < length xs"
    and each: "\<forall>r \<in> set runs. 0 < intensity r \<and> startMinute r < endMinute r \<and> endMinute r \<le> rs"
    and ord: "sorted_wrt (\<lambda>a b. endMinute a \<le> startMinute b) runs"
    unfolding runsInv_def by blast+
  have ord': "sorted_wrt (\<lambda>a b. startMinute a < startMinute b \<and> endMinute a \<le> startMinute b) runs"
    using ord each by (induction runs) auto
  show ?thesis
  proof (cases "ri > 0")
    case False
    with res have "findIntensityRuns xs thr = runs" by simp
    then show ?thesis using each ord' rs assms by fastforce
  next
    case True
    with res have "findIntensityRuns xs thr =
      runs @ [\<lparr>startMinute = rs, endMinute = MINUTES_PER_DAY, intensity = ri\<rparr>]" by simp
    then show ?thesis using each ord' rs assms True
      by (fastforce simp: sorted_wrt_append)
  qed
qed

text \<open>
  At the array that is 1 on the minutes before 60 and from 1200 on, and 0 between, the two
  segments are positive, non-empty and in order.
\<close>

theorem segment_list_invariant_witness:
  "length (map (\<lambda>m. if m < 60 \<or> 1200 \<le> m then 1 else 0 :: real) [0..<MINUTES_PER_DAY])
     \<le> MINUTES_PER_DAY
   \<and> findIntensityRuns (map (\<lambda>m. if m < 60 \<or> 1200 \<le> m then 1 else 0) [0..<MINUTES_PER_DAY])
        defaultThreshold =
       [\<lparr>startMinute = 0, endMinute = 60, intensity = 1\<rparr>,
        \<lparr>startMinute = 1200, endMinute = MINUTES_PER_DAY, intensity = 1\<rparr>]
   \<and> sorted_wrt (\<lambda>a b. startMinute a < startMinute b \<and> endMinute a \<le> startMinute b)
       [\<lparr>startMinute = 0, endMinute = 60, intensity = 1\<rparr>,
        \<lparr>startMinute = 1200, endMinute = MINUTES_PER_DAY, intensity = 1\<rparr>]"
proof -
  let ?xs = "map (\<lambda>m. if m < 60 \<or> 1200 \<le> m then 1 else 0 :: real) [0..<MINUTES_PER_DAY]"
  have h: "length ?xs \<le> MINUTES_PER_DAY" by simp
  have r: "findIntensityRuns ?xs defaultThreshold =
       [\<lparr>startMinute = 0, endMinute = 60, intensity = 1\<rparr>,
        \<lparr>startMinute = 1200, endMinute = MINUTES_PER_DAY, intensity = 1\<rparr>]"
    by (rule findIntensityRuns_overnight) simp_all
  from segment_list_invariant [OF h, of defaultThreshold] h show ?thesis
    unfolding r by simp
qed

text \<open>
  C10. Every emitted segment starts inside the array and carries exactly the array's
  value at its start minute; every later minute of the segment that lies inside the array
  differs from that value by at most the tolerance.
\<close>

theorem anchor_intensity:
  "\<forall>r \<in> set (findIntensityRuns xs thr).
     startMinute r < length xs \<and> intensity r = xs ! startMinute r
     \<and> (\<forall>m. startMinute r < m \<and> m < endMinute r \<and> m < length xs
            \<longrightarrow> \<bar>xs ! m - intensity r\<bar> \<le> thr)"
proof (cases "xs = []")
  case True
  then show ?thesis by (simp add: findIntensityRuns_Nil)
next
  case False
  then obtain runs rs ri where
    inv: "runsInv xs thr (length xs) (runs, rs, ri)" and
    res: "findIntensityRuns xs thr =
       (if ri > 0 then runs @ [\<lparr>startMinute = rs, endMinute = MINUTES_PER_DAY, intensity = ri\<rparr>]
        else runs)"
    by (rule findIntensityRuns_final)
  from inv have rs: "rs < length xs" and ri: "ri = xs ! rs"
    and tail: "\<forall>m. rs < m \<and> m < length xs \<longrightarrow> \<bar>xs ! m - ri\<bar> \<le> thr"
    and each: "\<forall>r \<in> set runs. startMinute r < endMinute r \<and> endMinute r \<le> rs
           \<and> intensity r = xs ! startMinute r
           \<and> (\<forall>m. startMinute r < m \<and> m < endMinute r \<longrightarrow> \<bar>xs ! m - intensity r\<bar> \<le> thr)"
    unfolding runsInv_def by blast+
  have old: "\<forall>r \<in> set runs. startMinute r < length xs \<and> intensity r = xs ! startMinute r
     \<and> (\<forall>m. startMinute r < m \<and> m < endMinute r \<and> m < length xs
            \<longrightarrow> \<bar>xs ! m - intensity r\<bar> \<le> thr)"
    using each rs by fastforce
  show ?thesis
  proof (cases "ri > 0")
    case False
    with res have eq: "findIntensityRuns xs thr = runs" by simp
    show ?thesis unfolding eq by (rule old)
  next
    case True
    with res have eq: "findIntensityRuns xs thr =
      runs @ [\<lparr>startMinute = rs, endMinute = MINUTES_PER_DAY, intensity = ri\<rparr>]" by simp
    show ?thesis
    proof (intro ballI)
      fix r
      assume "r \<in> set (findIntensityRuns xs thr)"
      then have "r \<in> set runs \<or> r = \<lparr>startMinute = rs, endMinute = MINUTES_PER_DAY, intensity = ri\<rparr>"
        using eq by auto
      then show "startMinute r < length xs \<and> intensity r = xs ! startMinute r
         \<and> (\<forall>m. startMinute r < m \<and> m < endMinute r \<and> m < length xs
              \<longrightarrow> \<bar>xs ! m - intensity r\<bar> \<le> thr)"
      proof
        assume "r \<in> set runs"
        then show ?thesis using old by blast
      next
        assume "r = \<lparr>startMinute = rs, endMinute = MINUTES_PER_DAY, intensity = ri\<rparr>"
        then show ?thesis using rs ri tail by simp
      qed
    qed
  qed
qed

text \<open>
  Twelve hours at 0.5 followed by twelve hours at 0.51 give one segment, reported with
  the value 0.5 of minute 0 although minute 720 holds 0.51.
\<close>

theorem anchor_intensity_witness:
  "findIntensityRuns (replicate 720 (1 / 2) @ replicate 720 (51 / 100)) defaultThreshold
     = [\<lparr>startMinute = 0, endMinute = MINUTES_PER_DAY, intensity = 1 / 2\<rparr>]
   \<and> (replicate 720 (1 / 2) @ replicate 720 (51 / 100)) ! 0 = (1 / 2 :: real)
   \<and> (replicate 720 (1 / 2) @ replicate 720 (51 / 100)) ! 720 = (51 / 100 :: real)
   \<and> \<bar>(51 / 100 :: real) - 1 / 2\<bar> \<le> defaultThreshold"
proof -
  let ?xs = "replicate 720 (1 / 2 :: real) @ replicate 720 (51 / 100)"
  have len: "length ?xs = 1440" by simp
  have x0: "?xs ! 0 = 1 / 2" and x720: "?xs ! 720 = 51 / 100"
    by (simp_all add: nth_append)
  have "\<forall>m. 1 \<le> m \<and> m < 1440 \<longrightarrow> \<bar>?xs ! m - 1 / 2\<bar> \<le> 2 / 100"
    by (simp add: nth_append)
  then have f: "fold (runStep ?xs (2 / 100)) [1..<1440] ([], 0, 1 / 2) = ([], 0, 1 / 2)"
    by (rule fold_runStep_same)
  have r: "findIntensityRuns ?xs defaultThreshold
     = [\<lparr>startMinute = 0, endMinute = MINUTES_PER_DAY, intensity = 1 / 2\<rparr>]"
    unfolding findIntensityRuns_def defaultThreshold_def len x0 f by simp
  have "\<forall>r \<in> set (findIntensityRuns ?xs defaultThreshold).
     startMinute r < length ?xs \<and> intensity r = ?xs ! startMinute r
     \<and> (\<forall>m. startMinute r < m \<and> m < endMinute r \<and> m < length ?xs
            \<longrightarrow> \<bar>?xs ! m - intensity r\<bar> \<le> defaultThreshold)"
    by (rule anchor_intensity)
  then have "\<bar>?xs ! 720 - 1 / 2\<bar> \<le> defaultThreshold"
    unfolding r len by simp
  then show ?thesis
    unfolding r x0 x720 by simp
qed

text \<open>
  C2, as the code has it. When the tolerance is not negative and the last sample is
  greater than the tolerance, the segmenter emits at least one segment and the last one
  ends at exactly 1440. A last sample that is positive but within the tolerance of a run
  anchored at 0 is merged into that run, which is not emitted.
\<close>

theorem final_run_closure:
  assumes "xs \<noteq> []" and "0 \<le> thr" and "thr < last xs"
  shows "findIntensityRuns xs thr \<noteq> []
         \<and> endMinute (last (findIntensityRuns xs thr)) = MINUTES_PER_DAY"
proof -
  from assms(1) obtain runs rs ri where
    inv: "runsInv xs thr (length xs) (runs, rs, ri)" and
    res: "findIntensityRuns xs thr =
       (if ri > 0 then runs @ [\<lparr>startMinute = rs, endMinute = MINUTES_PER_DAY, intensity = ri\<rparr>]
        else runs)"
    by (rule findIntensityRuns_final)
  from inv have rs: "rs < length xs" and ri: "ri = xs ! rs"
    and tail: "\<forall>m. rs < m \<and> m < length xs \<longrightarrow> \<bar>xs ! m - ri\<bar> \<le> thr"
    unfolding runsInv_def by blast+
  have l: "last xs = xs ! (length xs - 1)"
    using assms(1) by (rule last_conv_nth)
  have "0 < ri"
  proof (cases "rs = length xs - 1")
    case True
    then show ?thesis using ri l assms(2,3) by simp
  next
    case False
    then have "rs < length xs - 1 \<and> length xs - 1 < length xs" using rs by arith
    then have "\<bar>xs ! (length xs - 1) - ri\<bar> \<le> thr" using tail by blast
    then show ?thesis using l assms(3) by arith
  qed
  then show ?thesis using res by simp
qed

text \<open>
  A day that is 0 until its last minute, which holds 0.5.
\<close>

theorem final_run_closure_witness:
  "replicate 1439 (0::real) @ [1 / 2] \<noteq> [] \<and> 0 \<le> defaultThreshold
   \<and> defaultThreshold < last (replicate 1439 (0::real) @ [1 / 2])
   \<and> findIntensityRuns (replicate 1439 0 @ [1 / 2]) defaultThreshold \<noteq> []
   \<and> endMinute (last (findIntensityRuns (replicate 1439 0 @ [1 / 2]) defaultThreshold))
        = MINUTES_PER_DAY"
proof -
  have h1: "replicate 1439 (0::real) @ [1 / 2] \<noteq> []" by simp
  have h2: "0 \<le> defaultThreshold" by (simp add: defaultThreshold_def)
  have h3: "defaultThreshold < last (replicate 1439 (0::real) @ [1 / 2])"
    by (simp add: defaultThreshold_def)
  from final_run_closure [OF h1 h2 h3] h1 h2 h3 show ?thesis by blast
qed

text \<open>
  C2 as stated fails: 1439 minutes at 0 followed by a last minute at 0.01, with the
  default tolerance 0.02, is an array of 1440 samples whose last sample is not zero, and
  the segmenter emits nothing.
\<close>

theorem final_run_closure_counterexample:
  "length (replicate 1439 (0::real) @ [1 / 100]) = MINUTES_PER_DAY
   \<and> last (replicate 1439 (0::real) @ [1 / 100]) \<noteq> 0
   \<and> findIntensityRuns (replicate 1439 (0::real) @ [1 / 100]) defaultThreshold = []"
proof -
  let ?xs = "replicate 1439 (0::real) @ [1 / 100]"
  have "\<forall>m. 1 \<le> m \<and> m < 1440 \<longrightarrow> \<bar>?xs ! m - 0\<bar> \<le> 2 / 100"
    by (simp add: nth_append)
  then have "fold (runStep ?xs (2 / 100)) [1..<1440] ([], 0, 0) = ([], 0, 0)"
    by (rule fold_runStep_same)
  moreover have "?xs ! 0 = 0" by (simp add: nth_append)
  ultimately show ?thesis
    by (simp add: findIntensityRuns_def defaultThreshold_def)
qed

section \<open>The aggregator\<close>

lemma normalizedMinute_mod: "normalizedMinute m = nat (m mod 1440)"
proof (cases "m \<ge> 0")
  case True
  then show ?thesis
    by (simp add: normalizedMinute_def smod_int_alt_def sgn_if)
next
  case False
  define k where "k = (- m) mod 1440"
  have k: "0 \<le> k" "k < 1440" by (simp_all add: k_def)
  have 1: "m smod 1440 = - k"
    using False by (simp add: smod_int_alt_def k_def sgn_if)
  have 2: "(- k + 1440) smod 1440 = (1440 - k) mod 1440"
    using k by (simp add: smod_int_alt_def sgn_if)
  have "(1440 - (- m) mod 1440) mod 1440 = (1440 - (- m)) mod 1440"
    by (rule mod_diff_right_eq)
  also have "\<dots> = (m + 1440) mod 1440" by simp
  also have "\<dots> = m mod 1440" by simp
  finally have 3: "m mod 1440 = (1440 - k) mod 1440"
    by (simp add: k_def)
  have "normalizedMinute m = nat ((m smod 1440 + 1440) smod 1440)"
    by (simp add: normalizedMinute_def)
  also have "\<dots> = nat ((- k + 1440) smod 1440)" by (simp only: 1)
  also have "\<dots> = nat ((1440 - k) mod 1440)" by (simp only: 2)
  also have "\<dots> = nat (m mod 1440)" by (simp only: 3)
  finally show ?thesis .
qed

lemma normalizedMinute_less: "normalizedMinute m < MINUTES_PER_DAY"
  by (simp add: normalizedMinute_mod nat_less_iff)

lemma length_fold_addDay [simp]:
  "length (fold (\<lambda>x. addDay d (g x)) xs md) = length md"
  by (induction xs arbitrary: md) (simp_all add: addDay_def)

lemma nth_fold_addDay:
  "i < length md \<Longrightarrow>
   fold (\<lambda>x. addDay d (g x)) xs md ! i = (if i \<in> g ` set xs then insert d (md ! i) else md ! i)"
proof (induction xs arbitrary: md)
  case Nil
  then show ?case by simp
next
  case (Cons x xs)
  let ?md1 = "addDay d (g x) md"
  have len: "i < length ?md1"
    using Cons.prems by (simp add: addDay_def)
  have first: "?md1 ! i = (if i = g x then insert d (md ! i) else md ! i)"
    using Cons.prems by (simp add: addDay_def nth_list_update)
  have "fold (\<lambda>x. addDay d (g x)) (x # xs) md ! i = fold (\<lambda>x. addDay d (g x)) xs ?md1 ! i"
    by simp
  also have "\<dots> = (if i \<in> g ` set xs then insert d (?md1 ! i) else ?md1 ! i)"
    using len by (rule Cons.IH)
  also have "\<dots> = (if i \<in> g ` set (x # xs) then insert d (md ! i) else md ! i)"
    unfolding first by auto
  finally show ?case .
qed

lemma marksMinute_less: "marksMinute s dur i \<Longrightarrow> i < MINUTES_PER_DAY"
proof -
  assume m: "marksMinute s dur i"
  have "(s + dur) mod MINUTES_PER_DAY < MINUTES_PER_DAY" by simp
  with m show ?thesis
    by (auto simp: marksMinute_def split: if_splits)
qed

lemma length_markMinuteRange [simp]:
  "length (markMinuteRange md s dur d) = length md"
  using length_fold_addDay [of d "\<lambda>x. x"]
  by (simp add: markMinuteRange_def Let_def)

lemma nth_markMinuteRange:
  assumes "i < length md"
  shows "markMinuteRange md s dur d ! i =
         (if marksMinute s dur i then insert d (md ! i) else md ! i)"
  using assms nth_fold_addDay [of i _ d "\<lambda>x. x"] length_fold_addDay [of d "\<lambda>x. x"]
  by (auto simp: markMinuteRange_def Let_def marksMinute_def)

lemma marksMinute_covers:
  assumes "s < MINUTES_PER_DAY" "s + dur < 2 * MINUTES_PER_DAY" "m < MINUTES_PER_DAY"
  shows "marksMinute s dur m = interval_covers s dur m"
proof (cases "s + dur \<le> MINUTES_PER_DAY")
  case True
  then have "\<And>t. t \<in> {s..<s + dur} \<Longrightarrow> t mod MINUTES_PER_DAY = t"
    by simp
  then have "(\<lambda>t. t mod MINUTES_PER_DAY) ` {s..<s + dur} = {s..<s + dur}"
    by (simp add: image_def) 
  with True show ?thesis
    by (simp add: marksMinute_def interval_covers_def)
next
  case False
  then have w: "(s + dur) mod MINUTES_PER_DAY = s + dur - MINUTES_PER_DAY"
    using assms(2) by (simp add: mod_if)
  show ?thesis
  proof
    assume "marksMinute s dur m"
    with False w have "(s \<le> m \<and> m < 1440) \<or> m < s + dur - 1440"
      by (simp add: marksMinute_def)
    then show "interval_covers s dur m"
    proof
      assume "s \<le> m \<and> m < 1440"
      then have "m \<in> {s..<s + dur}" "m mod 1440 = m" using False by simp_all
      then show ?thesis unfolding interval_covers_def by (metis imageI)
    next
      assume "m < s + dur - 1440"
      then have "m + 1440 \<in> {s..<s + dur}" "(m + 1440) mod 1440 = m"
        using assms by simp_all
      then show ?thesis unfolding interval_covers_def by (metis imageI)
    qed
  next
    assume "interval_covers s dur m"
    then obtain t where t: "s \<le> t" "t < s + dur" "t mod 1440 = m"
      by (auto simp: interval_covers_def)
    show "marksMinute s dur m"
    proof (cases "t < 1440")
      case True
      with t have "s \<le> m \<and> m < 1440" by simp
      with False show ?thesis by (simp add: marksMinute_def)
    next
      case ge: False
      then have "t mod 1440 = t - 1440" using t(2) assms(2) by (simp add: mod_if)
      with t ge have "m < s + dur - 1440" by simp
      with False w show ?thesis by (simp add: marksMinute_def)
    qed
  qed
qed

lemma instant_covers_iff:
  "instant_covers minute i =
   (i \<in> normalizedMinute ` {int minute - HALF_WINDOW..int minute + HALF_WINDOW})"
proof
  assume "instant_covers minute i"
  then obtain off where off: "- 7 \<le> off" "off \<le> 7" "int i = (int minute + off) mod 1440"
    by (auto simp: instant_covers_def)
  then have "i = normalizedMinute (int minute + off)"
    by (simp add: normalizedMinute_mod)
  moreover have "int minute + off \<in> {int minute - 7..int minute + 7}"
    using off by simp
  ultimately show "i \<in> normalizedMinute ` {int minute - 7..int minute + 7}"
    by (rule image_eqI)
next
  assume "i \<in> normalizedMinute ` {int minute - 7..int minute + 7}"
  then obtain m where m: "int minute - 7 \<le> m" "m \<le> int minute + 7" "i = normalizedMinute m"
    by auto
  then have "int i = (int minute + (m - int minute)) mod 1440"
    by (simp add: normalizedMinute_mod)
  moreover have "m - int minute \<in> {- 7..7}" using m by simp
  ultimately show "instant_covers minute i"
    unfolding instant_covers_def by (metis (mono_tags, lifting) image_eqI of_nat_numeral)
qed

lemma fold_durationBody:
  "length (fst (fold durationBody acts s)) = length (fst s)
   \<and> snd (fold durationBody acts s) = snd s \<union> (\<lambda>a. getDateString (start a)) ` set acts
   \<and> (\<forall>i < length (fst s). fst (fold durationBody acts s) ! i =
         fst s ! i \<union> {getDateString (start a) | a.
            a \<in> set acts \<and> marksMinute (timeToMinutes (start a)) (durationMinutes a) i})"
proof (induction acts arbitrary: s)
  case Nil
  then show ?case by simp
next
  case (Cons a acts)
  obtain md ud where s: "s = (md, ud)" by (cases s)
  let ?s1 = "durationBody a (md, ud)"
  have s1: "?s1 = (markMinuteRange md (timeToMinutes (start a)) (durationMinutes a)
                     (getDateString (start a)), insert (getDateString (start a)) ud)"
    by (simp add: durationBody_def Let_def)
  have f: "fold durationBody (a # acts) s = fold durationBody acts ?s1" by (simp add: s)
  have len: "length (fst ?s1) = length md" by (simp add: s1)
  have nth1: "\<forall>i < length md. fst ?s1 ! i =
      (if marksMinute (timeToMinutes (start a)) (durationMinutes a) i
       then insert (getDateString (start a)) (md ! i) else md ! i)"
    by (simp add: s1 nth_markMinuteRange)
  from Cons.IH [of ?s1] have IH:
    "length (fst (fold durationBody acts ?s1)) = length (fst ?s1)"
    "snd (fold durationBody acts ?s1) = snd ?s1 \<union> (\<lambda>a. getDateString (start a)) ` set acts"
    "\<forall>i < length (fst ?s1). fst (fold durationBody acts ?s1) ! i =
         fst ?s1 ! i \<union> {getDateString (start a) | a.
            a \<in> set acts \<and> marksMinute (timeToMinutes (start a)) (durationMinutes a) i}"
    by blast+
  have "length (fst (fold durationBody (a # acts) s)) = length (fst s)"
    unfolding f using IH(1) len s by simp
  moreover have "snd (fold durationBody (a # acts) s) =
      snd s \<union> (\<lambda>a. getDateString (start a)) ` set (a # acts)"
    unfolding f IH(2) by (auto simp: s1 s)
  moreover have "\<forall>i < length (fst s). fst (fold durationBody (a # acts) s) ! i =
         fst s ! i \<union> {getDateString (start b) | b.
            b \<in> set (a # acts) \<and> marksMinute (timeToMinutes (start b)) (durationMinutes b) i}"
  proof (intro allI impI)
    fix i assume i: "i < length (fst s)"
    then have i': "i < length (fst ?s1)" "i < length md" using len s by simp_all
    show "fst (fold durationBody (a # acts) s) ! i =
         fst s ! i \<union> {getDateString (start b) | b.
            b \<in> set (a # acts) \<and> marksMinute (timeToMinutes (start b)) (durationMinutes b) i}"
      unfolding f using IH(3) i' nth1 by (auto simp: s)
  qed
  ultimately show ?case by blast
qed

lemma fold_instantBody:
  "length (fst (fold instantBody acts s)) = length (fst s)
   \<and> snd (fold instantBody acts s) = snd s \<union> (\<lambda>a. getDateString (time a)) ` set acts
   \<and> (\<forall>i < length (fst s). fst (fold instantBody acts s) ! i =
         fst s ! i \<union> {getDateString (time a) | a.
            a \<in> set acts \<and> instant_covers (timeToMinutes (time a)) i})"
proof (induction acts arbitrary: s)
  case Nil
  then show ?case by simp
next
  case (Cons a acts)
  obtain md ud where s: "s = (md, ud)" by (cases s)
  let ?s1 = "instantBody a (md, ud)"
  have s1: "?s1 = (fold (\<lambda>m. addDay (getDateString (time a)) (normalizedMinute m))
                     [int (timeToMinutes (time a)) - 7 .. int (timeToMinutes (time a)) + 7] md,
                   insert (getDateString (time a)) ud)"
    by (simp add: instantBody_def Let_def)
  have f: "fold instantBody (a # acts) s = fold instantBody acts ?s1" by (simp add: s)
  have len: "length (fst ?s1) = length md" by (simp add: s1)
  have nth1: "\<forall>i < length md. fst ?s1 ! i =
      (if instant_covers (timeToMinutes (time a)) i
       then insert (getDateString (time a)) (md ! i) else md ! i)"
    by (simp add: s1 nth_fold_addDay instant_covers_iff)
  from Cons.IH [of ?s1] have IH:
    "length (fst (fold instantBody acts ?s1)) = length (fst ?s1)"
    "snd (fold instantBody acts ?s1) = snd ?s1 \<union> (\<lambda>a. getDateString (time a)) ` set acts"
    "\<forall>i < length (fst ?s1). fst (fold instantBody acts ?s1) ! i =
         fst ?s1 ! i \<union> {getDateString (time a) | a.
            a \<in> set acts \<and> instant_covers (timeToMinutes (time a)) i}"
    by blast+
  have "length (fst (fold instantBody (a # acts) s)) = length (fst s)"
    unfolding f using IH(1) len s by simp
  moreover have "snd (fold instantBody (a # acts) s) =
      snd s \<union> (\<lambda>a. getDateString (time a)) ` set (a # acts)"
    unfolding f IH(2) by (auto simp: s1 s)
  moreover have "\<forall>i < length (fst s). fst (fold instantBody (a # acts) s) ! i =
         fst s ! i \<union> {getDateString (time b) | b.
            b \<in> set (a # acts) \<and> instant_covers (timeToMinutes (time b)) i}"
  proof (intro allI impI)
    fix i assume i: "i < length (fst s)"
    then have i': "i < length (fst ?s1)" "i < length md" using len s by simp_all
    show "fst (fold instantBody (a # acts) s) ! i =
         fst s ! i \<union> {getDateString (time b) | b.
            b \<in> set (a # acts) \<and> instant_covers (timeToMinutes (time b)) i}"
      unfolding f using IH(3) i' nth1 by (auto simp: s)
  qed
  ultimately show ?case by blast
qed

lemma duration_length: "length (minuteDays (calculateDurationHeatmap acts)) = MINUTES_PER_DAY"
  using fold_durationBody [of acts "(emptyMinuteDays, {})"]
  by (simp add: calculateDurationHeatmap_def split_beta emptyMinuteDays_def)

lemma duration_uniqueDays:
  "uniqueDays (calculateDurationHeatmap acts) = (\<lambda>a. getDateString (start a)) ` set acts"
  using fold_durationBody [of acts "(emptyMinuteDays, {})"]
  by (simp add: calculateDurationHeatmap_def split_beta)

lemma duration_nth:
  "i < MINUTES_PER_DAY \<Longrightarrow>
   minuteDays (calculateDurationHeatmap acts) ! i =
     {getDateString (start a) | a.
        a \<in> set acts \<and> marksMinute (timeToMinutes (start a)) (durationMinutes a) i}"
  using fold_durationBody [of acts "(emptyMinuteDays, {})"]
  by (simp add: calculateDurationHeatmap_def split_beta emptyMinuteDays_def)

lemma instant_length: "length (minuteDays (calculateInstantHeatmap acts)) = MINUTES_PER_DAY"
  using fold_instantBody [of acts "(emptyMinuteDays, {})"]
  by (simp add: calculateInstantHeatmap_def split_beta emptyMinuteDays_def)

lemma instant_uniqueDays:
  "uniqueDays (calculateInstantHeatmap acts) = (\<lambda>a. getDateString (time a)) ` set acts"
  using fold_instantBody [of acts "(emptyMinuteDays, {})"]
  by (simp add: calculateInstantHeatmap_def split_beta)

lemma instant_nth:
  "i < MINUTES_PER_DAY \<Longrightarrow>
   minuteDays (calculateInstantHeatmap acts) ! i =
     {getDateString (time a) | a. a \<in> set acts \<and> instant_covers (timeToMinutes (time a)) i}"
  using fold_instantBody [of acts "(emptyMinuteDays, {})"]
  by (simp add: calculateInstantHeatmap_def split_beta emptyMinuteDays_def)

text \<open>
  The coverage invariant holds for every list of instant records, and for every list of
  interval records that start at a minute below 1440 and end before the second midnight
  after the start of their day (start minute plus duration below 2880), which includes
  every duration of at most a day.
\<close>

lemma dayset_coverage_single_wrap:
  assumes "\<forall>a \<in> set acts. timeToMinutes (start a) < MINUTES_PER_DAY
             \<and> timeToMinutes (start a) + durationMinutes a < 2 * MINUTES_PER_DAY"
    and "m < MINUTES_PER_DAY"
  shows "key \<in> minuteDays (calculateDurationHeatmap acts) ! m \<longleftrightarrow>
         (\<exists>a \<in> set acts. getDateString (start a) = key
            \<and> interval_covers (timeToMinutes (start a)) (durationMinutes a) m)"
  using assms by (auto simp: duration_nth marksMinute_covers)

lemma dayset_coverage_instant:
  assumes "m < MINUTES_PER_DAY"
  shows "key \<in> minuteDays (calculateInstantHeatmap acts) ! m \<longleftrightarrow>
         (\<exists>a \<in> set acts. getDateString (time a) = key
            \<and> instant_covers (timeToMinutes (time a)) m)"
  using assms by (auto simp: instant_nth)

text \<open>
  C3. A date key belongs to slot \<open>m\<close> exactly when a record of that date covers \<open>m\<close>.
  The code breaks this for an interval that reaches the second midnight: a sleep that
  starts at 23:00 and lasts 1500 minutes covers minute 0 (its minute 1440), and indeed
  every minute of the day, yet \<open>endMinute % 1440\<close> is 0, so the wrapped loop marks nothing
  and slot 0 stays empty; only the minutes from 1380 on carry the date.
\<close>

theorem dayset_coverage_failing_input:
  "interval_covers (timeToMinutes date_2024_01_15_2300) 1500 0
   \<and> minuteDays (calculateDurationHeatmap
        [\<lparr>start = date_2024_01_15_2300, durationMinutes = 1500\<rparr>]) ! 0 = {}
   \<and> minuteDays (calculateDurationHeatmap
        [\<lparr>start = date_2024_01_15_2300, durationMinutes = 1500\<rparr>]) ! 1380
       = {getDateString date_2024_01_15_2300}"
proof -
  have t: "timeToMinutes date_2024_01_15_2300 = 1380"
    by (simp add: timeToMinutes_def date_2024_01_15_2300_def)
  have "(1440::nat) \<in> {1380..<1380 + 1500}" "(1440::nat) mod 1440 = 0" by simp_all
  then have "interval_covers 1380 1500 0"
    unfolding interval_covers_def by (metis imageI)
  moreover have "\<not> marksMinute 1380 1500 0" "marksMinute 1380 1500 1380"
    by (simp_all add: marksMinute_def)
  ultimately show ?thesis
    by (simp add: duration_nth t)
qed

section \<open>All heatmaps\<close>

lemma durationType_eq:
  "durationType kind acts (hm, days) =
     ((if acts = [] then hm else hm(kind \<mapsto> calculateDurationHeatmap acts)),
      days \<union> (\<lambda>x. getDateString (start x)) ` set acts)"
  by (simp add: durationType_def Let_def duration_uniqueDays)

lemma instantType_eq:
  "instantType kind acts (hm, days) =
     ((if acts = [] then hm else hm(kind \<mapsto> calculateInstantHeatmap acts)),
      days \<union> (\<lambda>x. getDateString (time x)) ` set acts)"
  by (simp add: instantType_def Let_def instant_uniqueDays)

lemma finite_datesSeen: "finite (datesSeen a)"
  by (simp add: datesSeen_def)

lemma totalDays_eq: "totalDays (calculateAllHeatmaps a) = card (datesSeen a)"
  by (simp add: calculateAllHeatmaps_def Let_def durationType_eq instantType_eq datesSeen_def
      image_Un Un_assoc)

lemma allUniqueDays_eq: "allUniqueDays (calculateAllHeatmaps a) = datesSeen a"
  by (simp add: calculateAllHeatmaps_def Let_def durationType_eq instantType_eq datesSeen_def
      image_Un Un_assoc)

lemma heatmaps_eq:
  "heatmaps (calculateAllHeatmaps a) kind =
     (if kind = ''diaper'' \<and> diaper a \<noteq> [] then
        Some (withIntensities kind (card (datesSeen a)) (calculateInstantHeatmap (diaper a)))
      else if kind = ''bottle'' \<and> bottle a \<noteq> [] then
        Some (withIntensities kind (card (datesSeen a)) (calculateInstantHeatmap (bottle a)))
      else if kind = ''pumping'' \<and> pumping a \<noteq> [] then
        Some (withIntensities kind (card (datesSeen a)) (calculateDurationHeatmap (pumping a)))
      else if kind = ''nursing'' \<and> nursing a \<noteq> [] then
        Some (withIntensities kind (card (datesSeen a)) (calculateDurationHeatmap (nursing a)))
      else if kind = ''sleep'' \<and> sleep a \<noteq> [] then
        Some (withIntensities kind (card (datesSeen a)) (calculateDurationHeatmap (sleep a)))
      else None)"
  by (simp add: calculateAllHeatmaps_def Let_def durationType_eq instantType_eq datesSeen_def
      image_Un Un_assoc)

lemma minuteDays_withIntensities [simp]:
  "minuteDays (withIntensities k n r) = minuteDays r"
  by (simp add: withIntensities_def heatmap_result.extend_def)

lemma intensities_withIntensities [simp]:
  "intensities (withIntensities k n r) = map (intensityOf n) (minuteDays r)"
  by (simp add: withIntensities_def heatmap_result.extend_def heatmap_data.fields_def)

lemma duration_slot_subset:
  "set acts \<subseteq> S \<Longrightarrow> m < MINUTES_PER_DAY \<Longrightarrow>
   minuteDays (calculateDurationHeatmap acts) ! m \<subseteq> (\<lambda>x. getDateString (start x)) ` S"
  by (auto simp: duration_nth)

lemma instant_slot_subset:
  "set acts \<subseteq> S \<Longrightarrow> m < MINUTES_PER_DAY \<Longrightarrow>
   minuteDays (calculateInstantHeatmap acts) ! m \<subseteq> (\<lambda>x. getDateString (time x)) ` S"
  by (auto simp: instant_nth)

lemma present_kind:
  assumes "heatmaps (calculateAllHeatmaps a) kind = Some data"
  obtains r where
    "data = withIntensities kind (card (datesSeen a)) r"
    "length (minuteDays r) = MINUTES_PER_DAY"
    "\<forall>m < MINUTES_PER_DAY. minuteDays r ! m \<subseteq> datesSeen a"
proof -
  have d: "\<And>acts m. set acts \<subseteq> set (sleep a) \<union> set (nursing a) \<union> set (pumping a) \<Longrightarrow>
            m < MINUTES_PER_DAY \<Longrightarrow>
            minuteDays (calculateDurationHeatmap acts) ! m \<subseteq> datesSeen a"
    using duration_slot_subset unfolding datesSeen_def by blast
  have i: "\<And>acts m. set acts \<subseteq> set (bottle a) \<union> set (diaper a) \<Longrightarrow>
            m < MINUTES_PER_DAY \<Longrightarrow>
            minuteDays (calculateInstantHeatmap acts) ! m \<subseteq> datesSeen a"
    using instant_slot_subset unfolding datesSeen_def by blast
  from assms consider
      "data = withIntensities kind (card (datesSeen a)) (calculateInstantHeatmap (diaper a))"
    | "data = withIntensities kind (card (datesSeen a)) (calculateInstantHeatmap (bottle a))"
    | "data = withIntensities kind (card (datesSeen a)) (calculateDurationHeatmap (pumping a))"
    | "data = withIntensities kind (card (datesSeen a)) (calculateDurationHeatmap (nursing a))"
    | "data = withIntensities kind (card (datesSeen a)) (calculateDurationHeatmap (sleep a))"
    unfolding heatmaps_eq by (auto split: if_splits)
  then show ?thesis
  proof cases
    case 1
    then show ?thesis using that [of "calculateInstantHeatmap (diaper a)"] i [of "diaper a"]
      by (simp add: instant_length)
  next
    case 2
    then show ?thesis using that [of "calculateInstantHeatmap (bottle a)"] i [of "bottle a"]
      by (simp add: instant_length)
  next
    case 3
    then show ?thesis using that [of "calculateDurationHeatmap (pumping a)"] d [of "pumping a"]
      by (auto simp add: duration_length)
  next
    case 4
    then show ?thesis using that [of "calculateDurationHeatmap (nursing a)"] d [of "nursing a"]
      by (auto simp add: duration_length)
  next
    case 5
    then show ?thesis using that [of "calculateDurationHeatmap (sleep a)"] d [of "sleep a"]
      by (auto simp add: duration_length)
  qed
qed

lemma intensityOf_range: "0 \<le> intensityOf n S \<and> intensityOf n S \<le> 1"
  by (simp add: intensityOf_def)

lemma intensityOf_zero: "intensityOf 0 S = 0"
  by (simp add: intensityOf_def)

lemma duration_same_day_covering:
  assumes "m < MINUTES_PER_DAY"
    and "timeToMinutes (start a1) < MINUTES_PER_DAY"
    and "timeToMinutes (start a1) + durationMinutes a1 < 2 * MINUTES_PER_DAY"
    and "timeToMinutes (start a2) < MINUTES_PER_DAY"
    and "timeToMinutes (start a2) + durationMinutes a2 < 2 * MINUTES_PER_DAY"
    and "getDateString (start a1) = getDateString (start a2)"
    and "interval_covers (timeToMinutes (start a1)) (durationMinutes a1) m"
    and "interval_covers (timeToMinutes (start a2)) (durationMinutes a2) m"
  shows "minuteDays (calculateDurationHeatmap [a1, a2]) ! m = {getDateString (start a1)}"
proof -
  have "marksMinute (timeToMinutes (start a1)) (durationMinutes a1) m"
    using assms(1,2,3,7) by (simp add: marksMinute_covers)
  moreover have "marksMinute (timeToMinutes (start a2)) (durationMinutes a2) m"
    using assms(1,4,5,8) by (simp add: marksMinute_covers)
  ultimately show ?thesis
    using assms(1,6) by (auto simp: duration_nth)
qed

lemma instant_same_day_covering:
  assumes "m < MINUTES_PER_DAY"
    and "getDateString (time a1) = getDateString (time a2)"
    and "instant_covers (timeToMinutes (time a1)) m"
    and "instant_covers (timeToMinutes (time a2)) m"
  shows "minuteDays (calculateInstantHeatmap [a1, a2]) ! m = {getDateString (time a1)}"
  using assms by (auto simp: instant_nth)

lemma duration_same_day:
  assumes "m < MINUTES_PER_DAY"
    and "d \<in> minuteDays (calculateDurationHeatmap [a1]) ! m"
    and "d \<in> minuteDays (calculateDurationHeatmap [a2]) ! m"
  shows "minuteDays (calculateDurationHeatmap [a1, a2]) ! m = {d}"
  using assms by (auto simp: duration_nth)

lemma instant_same_day:
  assumes "m < MINUTES_PER_DAY"
    and "d \<in> minuteDays (calculateInstantHeatmap [a1]) ! m"
    and "d \<in> minuteDays (calculateInstantHeatmap [a2]) ! m"
  shows "minuteDays (calculateInstantHeatmap [a1, a2]) ! m = {d}"
  using assms by (auto simp: instant_nth)

lemma example_keys:
  "getDateString date_2024_01_15_0800 = ''2024-01-15''"
  "getDateString date_2024_01_15_0820 = ''2024-01-15''"
  "getDateString date_2024_01_16_0820 = ''2024-01-16''"
  by (simp_all add: getDateString_def String_nat.simps padStart_def
      date_2024_01_15_0800_def date_2024_01_15_0820_def date_2024_01_16_0820_def)

lemma example_minutes:
  "timeToMinutes date_2024_01_15_0800 = 480"
  "timeToMinutes date_2024_01_15_0820 = 500"
  by (simp_all add: timeToMinutes_def date_2024_01_15_0800_def date_2024_01_15_0820_def)

text \<open>
  What holds of normalisation for every input. The denominator is the number of distinct
  day keys over the records of all kinds. For every kind present and every minute \<open>m\<close>,
  the intensity array has 1440 entries and its entry at \<open>m\<close> is the minimum of 1 and the
  size of day-set \<open>m\<close> divided by the denominator when that is positive (0 otherwise);
  the day-set is never larger than the denominator, and the intensity lies between 0 and
  1. Two instant records of one day that both cover minute \<open>m\<close>, and two interval
  records of one day that both cover \<open>m\<close> and end before the second midnight after their
  day began, leave exactly one key in slot \<open>m\<close>.
\<close>

theorem normalization_and_clamping:
  "totalDays (calculateAllHeatmaps a) = card (datesSeen a)
   \<and> (\<forall>kind data m.
         heatmaps (calculateAllHeatmaps a) kind = Some data \<and> m < MINUTES_PER_DAY \<longrightarrow>
           length (intensities data) = MINUTES_PER_DAY
           \<and> intensities data ! m =
               (if totalDays (calculateAllHeatmaps a) > 0
                then min 1 (real (card (minuteDays data ! m))
                            / real (totalDays (calculateAllHeatmaps a)))
                else 0)
           \<and> card (minuteDays data ! m) \<le> totalDays (calculateAllHeatmaps a)
           \<and> 0 \<le> intensities data ! m \<and> intensities data ! m \<le> 1)
   \<and> (\<forall>m a1 a2. m < MINUTES_PER_DAY
         \<and> timeToMinutes (start a1) < MINUTES_PER_DAY
         \<and> timeToMinutes (start a1) + durationMinutes a1 < 2 * MINUTES_PER_DAY
         \<and> timeToMinutes (start a2) < MINUTES_PER_DAY
         \<and> timeToMinutes (start a2) + durationMinutes a2 < 2 * MINUTES_PER_DAY
         \<and> getDateString (start a1) = getDateString (start a2)
         \<and> interval_covers (timeToMinutes (start a1)) (durationMinutes a1) m
         \<and> interval_covers (timeToMinutes (start a2)) (durationMinutes a2) m
         \<longrightarrow> card (minuteDays (calculateDurationHeatmap [a1, a2]) ! m) = 1)
   \<and> (\<forall>m a1 a2. m < MINUTES_PER_DAY
         \<and> getDateString (time a1) = getDateString (time a2)
         \<and> instant_covers (timeToMinutes (time a1)) m
         \<and> instant_covers (timeToMinutes (time a2)) m
         \<longrightarrow> card (minuteDays (calculateInstantHeatmap [a1, a2]) ! m) = 1)"
proof (intro conjI allI impI)
  show "totalDays (calculateAllHeatmaps a) = card (datesSeen a)"
    by (rule totalDays_eq)
next
  fix kind data m
  assume h: "heatmaps (calculateAllHeatmaps a) kind = Some data \<and> m < MINUTES_PER_DAY"
  then obtain r where r: "data = withIntensities kind (card (datesSeen a)) r"
    "length (minuteDays r) = MINUTES_PER_DAY"
    "\<forall>m < MINUTES_PER_DAY. minuteDays r ! m \<subseteq> datesSeen a"
    using present_kind by blast
  from h have m: "m < MINUTES_PER_DAY" by simp
  show "length (intensities data) = MINUTES_PER_DAY"
    by (simp add: r)
  have nth: "intensities data ! m = intensityOf (card (datesSeen a)) (minuteDays data ! m)"
    using m r(2) by (simp add: r(1))
  show "intensities data ! m =
               (if totalDays (calculateAllHeatmaps a) > 0
                then min 1 (real (card (minuteDays data ! m))
                            / real (totalDays (calculateAllHeatmaps a)))
                else 0)"
    unfolding nth totalDays_eq by (simp add: intensityOf_def)
  show "card (minuteDays data ! m) \<le> totalDays (calculateAllHeatmaps a)"
    unfolding totalDays_eq using r(3) m finite_datesSeen [of a]
    by (simp add: r(1) card_mono)
  show "0 \<le> intensities data ! m" "intensities data ! m \<le> 1"
    unfolding nth using intensityOf_range by blast+
next
  fix m and a1 a2 :: duration_activity
  assume "m < MINUTES_PER_DAY
         \<and> timeToMinutes (start a1) < MINUTES_PER_DAY
         \<and> timeToMinutes (start a1) + durationMinutes a1 < 2 * MINUTES_PER_DAY
         \<and> timeToMinutes (start a2) < MINUTES_PER_DAY
         \<and> timeToMinutes (start a2) + durationMinutes a2 < 2 * MINUTES_PER_DAY
         \<and> getDateString (start a1) = getDateString (start a2)
         \<and> interval_covers (timeToMinutes (start a1)) (durationMinutes a1) m
         \<and> interval_covers (timeToMinutes (start a2)) (durationMinutes a2) m"
  then have "minuteDays (calculateDurationHeatmap [a1, a2]) ! m = {getDateString (start a1)}"
    using duration_same_day_covering by blast
  then show "card (minuteDays (calculateDurationHeatmap [a1, a2]) ! m) = 1" by simp
next
  fix m and a1 a2 :: instant_activity
  assume "m < MINUTES_PER_DAY
         \<and> getDateString (time a1) = getDateString (time a2)
         \<and> instant_covers (timeToMinutes (time a1)) m
         \<and> instant_covers (timeToMinutes (time a2)) m"
  then have "minuteDays (calculateInstantHeatmap [a1, a2]) ! m = {getDateString (time a1)}"
    using instant_same_day_covering by blast
  then show "card (minuteDays (calculateInstantHeatmap [a1, a2]) ! m) = 1" by simp
qed

text \<open>
  Two sleeps on 15 January that both cover 08:20 and a diaper change on 16 January: two
  days in all, one key in the sleep slot of minute 500, intensity one half.
\<close>

theorem normalization_and_clamping_witness:
  "totalDays (calculateAllHeatmaps twoDayActivities) = 2
   \<and> heatmaps (calculateAllHeatmaps twoDayActivities) ''sleep'' \<noteq> None
   \<and> card (minuteDays (the (heatmaps (calculateAllHeatmaps twoDayActivities) ''sleep'')) ! 500) = 1
   \<and> intensities (the (heatmaps (calculateAllHeatmaps twoDayActivities) ''sleep'')) ! 500 = 1 / 2"
proof -
  let ?out = "calculateAllHeatmaps twoDayActivities"
  have seen: "datesSeen twoDayActivities = {''2024-01-15'', ''2024-01-16''}"
    by (auto simp add: datesSeen_def twoDayActivities_def example_keys)
  have D: "totalDays ?out = 2"
    by (simp add: totalDays_eq seen)
  have "heatmaps ?out ''sleep'' \<noteq> None"
    by (simp add: heatmaps_eq twoDayActivities_def)
  then obtain data where data: "heatmaps ?out ''sleep'' = Some data" by blast
  have "minuteDays data = minuteDays (calculateDurationHeatmap (sleep twoDayActivities))"
    using data by (simp add: heatmaps_eq twoDayActivities_def split: if_splits) auto
  moreover have "''2024-01-15'' \<in> minuteDays (calculateDurationHeatmap
      [\<lparr>start = date_2024_01_15_0800, durationMinutes = 60\<rparr>]) ! 500"
    by (simp add: duration_nth example_keys example_minutes marksMinute_def)
  moreover have "''2024-01-15'' \<in> minuteDays (calculateDurationHeatmap
      [\<lparr>start = date_2024_01_15_0820, durationMinutes = 30\<rparr>]) ! 500"
    by (simp add: duration_nth example_keys example_minutes marksMinute_def)
  ultimately have slot: "minuteDays data ! 500 = {''2024-01-15''}"
    by (simp add: duration_same_day twoDayActivities_def)
  from normalization_and_clamping [of twoDayActivities] data have
    "intensities data ! 500 =
       (if totalDays ?out > 0
        then min 1 (real (card (minuteDays data ! 500)) / real (totalDays ?out)) else 0)"
    by simp
  then have "intensities data ! 500 = 1 / 2"
    unfolding slot D by simp
  with D data slot show ?thesis by simp
qed

text \<open>
  C5. Two records of one kind on one date that both cover minute \<open>m\<close> put exactly one key
  into slot \<open>m\<close>, whose intensity is then the minimum of 1 and the slot's size over the
  day count. The code breaks this where an interval reaches the second midnight: two
  sleeps of 15 January, from 23:00 for 1500 minutes and from 22:00 for 1560 minutes, both
  cover minute 0, and they are the only records, so the day count is 1 and the intensity
  at minute 0 should be 1. Both end at minute 2880, \<open>endMinute % 1440\<close> is 0 and the wrapped
  loop marks nothing: slot 0 holds no key and the intensity at minute 0 is 0.
\<close>

theorem normalization_failing_input:
  "getDateString date_2024_01_15_2300 = getDateString date_2024_01_15_2200
   \<and> interval_covers (timeToMinutes date_2024_01_15_2300) 1500 0
   \<and> interval_covers (timeToMinutes date_2024_01_15_2200) 1560 0
   \<and> totalDays (calculateAllHeatmaps longSleepActivities) = 1
   \<and> heatmaps (calculateAllHeatmaps longSleepActivities) ''sleep'' \<noteq> None
   \<and> card (minuteDays (the (heatmaps (calculateAllHeatmaps longSleepActivities) ''sleep'')) ! 0)
       = 0
   \<and> intensities (the (heatmaps (calculateAllHeatmaps longSleepActivities) ''sleep'')) ! 0 = 0"
proof -
  let ?out = "calculateAllHeatmaps longSleepActivities"
  let ?r = "calculateDurationHeatmap (sleep longSleepActivities)"
  have keys: "getDateString date_2024_01_15_2300 = getDateString date_2024_01_15_2200"
    by (simp add: getDateString_def date_2024_01_15_2300_def date_2024_01_15_2200_def)
  have t: "timeToMinutes date_2024_01_15_2300 = 1380" "timeToMinutes date_2024_01_15_2200 = 1320"
    by (simp_all add: timeToMinutes_def date_2024_01_15_2300_def date_2024_01_15_2200_def)
  have "(1440::nat) \<in> {1380..<1380 + 1500}" "(1440::nat) \<in> {1320..<1320 + 1560}"
    "(1440::nat) mod 1440 = 0" by simp_all
  then have cov: "interval_covers 1380 1500 0" "interval_covers 1320 1560 0"
    unfolding interval_covers_def by (metis imageI)+
  have seen: "datesSeen longSleepActivities = {getDateString date_2024_01_15_2200}"
    by (simp add: datesSeen_def longSleepActivities_def keys)
  have D: "totalDays ?out = 1"
    by (simp add: totalDays_eq seen)
  have hm: "heatmaps ?out ''sleep'' = Some (withIntensities ''sleep'' 1 ?r)"
    by (simp add: heatmaps_eq seen) (simp add: longSleepActivities_def)
  have "\<not> marksMinute 1380 1500 0" "\<not> marksMinute 1320 1560 0"
    by (simp_all add: marksMinute_def)
  then have slot: "minuteDays ?r ! 0 = {}"
    by (auto simp: duration_nth longSleepActivities_def t)
  have "intensities (withIntensities ''sleep'' 1 ?r) ! 0 = intensityOf 1 (minuteDays ?r ! 0)"
    by (simp add: duration_length)
  then have int: "intensities (withIntensities ''sleep'' 1 ?r) ! 0 = 0"
    unfolding slot by (simp add: intensityOf_def)
  show ?thesis
    using keys cov D slot int by (simp add: hm t)
qed

text \<open>
  C9. The keys of the aggregated heatmaps are exactly the names of the kinds whose list
  of records is not empty.
\<close>

theorem absent_kinds_omitted:
  "dom (heatmaps (calculateAllHeatmaps a)) =
     {kind. (kind = ''sleep'' \<and> sleep a \<noteq> []) \<or> (kind = ''nursing'' \<and> nursing a \<noteq> [])
          \<or> (kind = ''pumping'' \<and> pumping a \<noteq> []) \<or> (kind = ''bottle'' \<and> bottle a \<noteq> [])
          \<or> (kind = ''diaper'' \<and> diaper a \<noteq> [])}"
  unfolding dom_def heatmaps_eq by auto

text \<open>
  With one sleep record and nothing else, sleep is the only key.
\<close>

theorem absent_kinds_omitted_witness:
  "dom (heatmaps (calculateAllHeatmaps (overnightActivities date_2024_01_15_2000))) = {''sleep''}"
  using absent_kinds_omitted [of "overnightActivities date_2024_01_15_2000"]
  by (auto simp: overnightActivities_def)

subsection \<open>No failure, and the guard of the division\<close>

lemma forEach_addDay:
  "\<forall>x \<in> set xs. g x < length slots \<Longrightarrow>
   forEach (\<lambda>x. addDay_checked d (g x)) xs slots = Inr (fold (\<lambda>x. addDay d (g x)) xs slots)"
proof (induction xs arbitrary: slots)
  case Nil
  show ?case by simp
next
  case (Cons x xs)
  have 1: "addDay_checked d (g x) slots = Inr (addDay d (g x) slots)"
    using Cons.prems by (simp add: addDay_checked_def addDay_def)
  have "\<forall>y \<in> set xs. g y < length (addDay d (g x) slots)"
    using Cons.prems by (simp add: addDay_def)
  then have "forEach (\<lambda>x. addDay_checked d (g x)) xs (addDay d (g x) slots)
             = Inr (fold (\<lambda>x. addDay d (g x)) xs (addDay d (g x) slots))"
    by (rule Cons.IH)
  then show ?case by (simp add: 1)
qed

lemma markMinuteRange_checked_ok:
  assumes "length slots = MINUTES_PER_DAY"
  shows "markMinuteRange_checked slots s dur d = Inr (markMinuteRange slots s dur d)"
proof (cases "s + dur \<le> MINUTES_PER_DAY")
  case True
  then have "\<forall>x \<in> set [s..<s + dur]. x < length slots" using assms by simp
  then have "forEach (addDay_checked d) [s..<s + dur] slots
             = Inr (fold (addDay d) [s..<s + dur] slots)"
    using forEach_addDay [of "[s..<s + dur]" "\<lambda>x. x" slots d] by simp
  with True show ?thesis
    by (simp add: markMinuteRange_checked_def markMinuteRange_def Let_def)
next
  case False
  let ?first = "fold (addDay d) [s..<MINUTES_PER_DAY] slots"
  have "\<forall>x \<in> set [s..<MINUTES_PER_DAY]. x < length slots" using assms by simp
  then have 1: "forEach (addDay_checked d) [s..<MINUTES_PER_DAY] slots = Inr ?first"
    using forEach_addDay [of "[s..<MINUTES_PER_DAY]" "\<lambda>x. x" slots d] by simp
  have len: "length ?first = MINUTES_PER_DAY"
    using length_fold_addDay [of d "\<lambda>x. x" "[s..<MINUTES_PER_DAY]" slots] assms by simp
  have w: "(s + dur) mod MINUTES_PER_DAY < MINUTES_PER_DAY" by simp
  have "\<forall>x \<in> set [0..<(s + dur) mod MINUTES_PER_DAY]. x < length ?first"
  proof
    fix x
    assume "x \<in> set [0..<(s + dur) mod MINUTES_PER_DAY]"
    then have "x < (s + dur) mod MINUTES_PER_DAY" by simp
    then have "x < MINUTES_PER_DAY" using w by (rule less_trans)
    then show "x < length ?first" by (simp only: len)
  qed
  then have 2: "forEach (addDay_checked d) [0..<(s + dur) mod MINUTES_PER_DAY] ?first
                = Inr (fold (addDay d) [0..<(s + dur) mod MINUTES_PER_DAY] ?first)"
    using forEach_addDay [of "[0..<(s + dur) mod MINUTES_PER_DAY]" "\<lambda>x. x" ?first d] by simp
  from False show ?thesis
    by (simp add: markMinuteRange_checked_def markMinuteRange_def Let_def 1 2)
qed

lemma forEach_durationBody:
  "length slots = MINUTES_PER_DAY \<Longrightarrow>
   forEach durationBody_checked acts (slots, days) = Inr (fold durationBody acts (slots, days))"
proof (induction acts arbitrary: slots days)
  case Nil
  show ?case by simp
next
  case (Cons a acts)
  let ?slots1 = "markMinuteRange slots (timeToMinutes (start a)) (durationMinutes a)
                   (getDateString (start a))"
  let ?days1 = "insert (getDateString (start a)) days"
  have 1: "durationBody_checked a (slots, days) = Inr (?slots1, ?days1)"
    using Cons.prems by (simp add: durationBody_checked_def Let_def markMinuteRange_checked_ok)
  have 2: "durationBody a (slots, days) = (?slots1, ?days1)"
    by (simp add: durationBody_def Let_def)
  have "length ?slots1 = MINUTES_PER_DAY" using Cons.prems by simp
  then have "forEach durationBody_checked acts (?slots1, ?days1)
             = Inr (fold durationBody acts (?slots1, ?days1))"
    by (rule Cons.IH)
  then show ?case by (simp add: 1 2)
qed

lemma forEach_instantBody:
  "length slots = MINUTES_PER_DAY \<Longrightarrow>
   forEach instantBody_checked acts (slots, days) = Inr (fold instantBody acts (slots, days))"
proof (induction acts arbitrary: slots days)
  case Nil
  show ?case by simp
next
  case (Cons a acts)
  let ?ms = "[int (timeToMinutes (time a)) - HALF_WINDOW .. int (timeToMinutes (time a)) + HALF_WINDOW]"
  let ?slots1 = "fold (\<lambda>m. addDay (getDateString (time a)) (normalizedMinute m)) ?ms slots"
  let ?days1 = "insert (getDateString (time a)) days"
  have "\<forall>m \<in> set ?ms. normalizedMinute m < length slots"
    using Cons.prems normalizedMinute_less by simp
  then have "forEach (\<lambda>m. addDay_checked (getDateString (time a)) (normalizedMinute m)) ?ms slots
             = Inr ?slots1"
    by (rule forEach_addDay)
  then have 1: "instantBody_checked a (slots, days) = Inr (?slots1, ?days1)"
    by (simp add: instantBody_checked_def Let_def)
  have 2: "instantBody a (slots, days) = (?slots1, ?days1)"
    by (simp add: instantBody_def Let_def)
  have "length ?slots1 = MINUTES_PER_DAY" using Cons.prems by simp
  then have "forEach instantBody_checked acts (?slots1, ?days1)
             = Inr (fold instantBody acts (?slots1, ?days1))"
    by (rule Cons.IH)
  then show ?case by (simp add: 1 2)
qed

lemma calculateDurationHeatmap_checked_ok:
  "calculateDurationHeatmap_checked acts = Inr (calculateDurationHeatmap acts)"
  by (simp add: calculateDurationHeatmap_checked_def calculateDurationHeatmap_def
      forEach_durationBody emptyMinuteDays_def split_beta)

lemma calculateInstantHeatmap_checked_ok:
  "calculateInstantHeatmap_checked acts = Inr (calculateInstantHeatmap acts)"
  by (simp add: calculateInstantHeatmap_checked_def calculateInstantHeatmap_def
      forEach_instantBody emptyMinuteDays_def split_beta)

lemma durationType_checked_ok:
  "durationType_checked kind acts s = Inr (durationType kind acts s)"
  by (cases s)
     (simp add: durationType_checked_def durationType_def calculateDurationHeatmap_checked_ok
        Let_def)

lemma instantType_checked_ok:
  "instantType_checked kind acts s = Inr (instantType kind acts s)"
  by (cases s)
     (simp add: instantType_checked_def instantType_def calculateInstantHeatmap_checked_ok
        Let_def)

lemma calculateAllHeatmaps_checked_ok:
  "calculateAllHeatmaps_checked a = Inr (calculateAllHeatmaps a)"
  by (simp add: calculateAllHeatmaps_checked_def calculateAllHeatmaps_def
      durationType_checked_ok instantType_checked_ok Let_def)

lemma intensityNumber_eq: "intensityNumber n days = Num (intensityOf n days)"
  by (simp add: intensityNumber_def intensityOf_def Math_min_1_def js_divide_def)

lemma unguarded_at_zero: "Math_min_1 (js_divide (card days) 0) \<noteq> Num 0"
  by (simp add: Math_min_1_def js_divide_def)

text \<open>
  C8. For every input the aggregation returns its result and never fails. The denominator
  is 0 exactly when no kind has a record; then the result has no entry for any kind and
  no day, so no intensity is produced at all and none differs from 0. The function that
  turns a day-set into an intensity yields 0 when the denominator is 0, whatever the
  day-set, where the division without the guard of \<open>totalDays > 0\<close> would yield 1 or
  \<open>NaN\<close>; for every denominator its value is a finite number, the real number the
  aggregator's model carries.
\<close>

theorem zero_denominator:
  "calculateAllHeatmaps_checked a = Inr (calculateAllHeatmaps a)
   \<and> ((totalDays (calculateAllHeatmaps a) = 0) =
        (sleep a = [] \<and> nursing a = [] \<and> pumping a = [] \<and> bottle a = [] \<and> diaper a = []))
   \<and> (totalDays (calculateAllHeatmaps a) = 0 \<longrightarrow>
        heatmaps (calculateAllHeatmaps a) = Map.empty
        \<and> allUniqueDays (calculateAllHeatmaps a) = {})
   \<and> (\<forall>days. intensityNumber 0 days = Num 0
          \<and> Math_min_1 (js_divide (card days) 0) \<noteq> Num 0)
   \<and> (\<forall>n days. intensityNumber n days = Num (intensityOf n days))"
proof -
  have iff: "(totalDays (calculateAllHeatmaps a) = 0) =
     (sleep a = [] \<and> nursing a = [] \<and> pumping a = [] \<and> bottle a = [] \<and> diaper a = [])"
    using finite_datesSeen [of a] by (simp add: totalDays_eq) (simp add: datesSeen_def)
  have none: "heatmaps (calculateAllHeatmaps a) = Map.empty
              \<and> allUniqueDays (calculateAllHeatmaps a) = {}"
    if "totalDays (calculateAllHeatmaps a) = 0"
  proof -
    from that iff have e: "sleep a = [] \<and> nursing a = [] \<and> pumping a = []
        \<and> bottle a = [] \<and> diaper a = []" by simp
    then have "heatmaps (calculateAllHeatmaps a) = Map.empty"
      by (intro ext) (simp add: heatmaps_eq)
    moreover from e have "allUniqueDays (calculateAllHeatmaps a) = {}"
      by (simp add: allUniqueDays_eq datesSeen_def)
    ultimately show ?thesis by simp
  qed
  have zero: "\<forall>days. intensityNumber 0 days = Num 0
          \<and> Math_min_1 (js_divide (card days) 0) \<noteq> Num 0"
    by (simp add: intensityNumber_def unguarded_at_zero)
  show ?thesis
    using calculateAllHeatmaps_checked_ok [of a] iff none zero intensityNumber_eq by blast
qed

text \<open>
  The two days of records filtered by a lower bound after all of them: every list is
  empty, the aggregation returns, the denominator is 0 and no entry is produced.
\<close>

theorem zero_denominator_witness:
  "sleep (getFilteredActivities filteredOutState) = []
   \<and> diaper (getFilteredActivities filteredOutState) = []
   \<and> calculateAllHeatmaps_checked (getFilteredActivities filteredOutState)
       = Inr (calculateAllHeatmaps (getFilteredActivities filteredOutState))
   \<and> totalDays (calculateAllHeatmaps (getFilteredActivities filteredOutState)) = 0
   \<and> heatmaps (calculateAllHeatmaps (getFilteredActivities filteredOutState)) = Map.empty
   \<and> intensityNumber 0 {} = Num 0
   \<and> Math_min_1 (js_divide (card ({} :: string set)) 0) = NaN"
proof -
  let ?f = "getFilteredActivities filteredOutState"
  have e: "sleep ?f = [] \<and> nursing ?f = [] \<and> pumping ?f = [] \<and> bottle ?f = [] \<and> diaper ?f = []"
    by (simp add: getFilteredActivities_def filteredOutState_def twoDayActivities_def
        keepActivity_def date_2024_01_15_0800_def date_2024_01_15_0820_def
        date_2024_01_16_0820_def)
  have n: "Math_min_1 (js_divide (card ({} :: string set)) 0) = NaN"
    by (simp add: Math_min_1_def js_divide_def)
  from zero_denominator [of ?f] e n show ?thesis by (simp add: intensityOf_zero)
qed

section \<open>The range filter\<close>

lemma keepActivity_eq: "keepActivity lo hi t = withinBounds lo hi t"
  by (cases lo; cases hi) (auto simp: keepActivity_def withinBounds_def)

text \<open>
  C7. For each kind the filter returns, in their order, exactly the records of the state
  whose start (interval kinds) or occurrence (instant kinds) lies within the bounds, both
  bounds inclusive and a missing bound leaving its side open. The result is a list for
  each kind, empty when no record matches, and the state is only read.
\<close>

theorem range_filter_contract:
  "sleep (getFilteredActivities st) =
     filter (\<lambda>r. withinBounds (filter_start (dateFilter st)) (filter_end (dateFilter st))
                   (getTime (start r))) (sleep (activities st))
   \<and> nursing (getFilteredActivities st) =
     filter (\<lambda>r. withinBounds (filter_start (dateFilter st)) (filter_end (dateFilter st))
                   (getTime (start r))) (nursing (activities st))
   \<and> pumping (getFilteredActivities st) =
     filter (\<lambda>r. withinBounds (filter_start (dateFilter st)) (filter_end (dateFilter st))
                   (getTime (start r))) (pumping (activities st))
   \<and> bottle (getFilteredActivities st) =
     filter (\<lambda>r. withinBounds (filter_start (dateFilter st)) (filter_end (dateFilter st))
                   (getTime (time r))) (bottle (activities st))
   \<and> diaper (getFilteredActivities st) =
     filter (\<lambda>r. withinBounds (filter_start (dateFilter st)) (filter_end (dateFilter st))
                   (getTime (time r))) (diaper (activities st))"
proof (cases "filter_start (dateFilter st) = None \<and> filter_end (dateFilter st) = None")
  case True
  then have "getFilteredActivities st = activities st"
    by (simp add: getFilteredActivities_def)
  moreover have "\<And>t. withinBounds (filter_start (dateFilter st)) (filter_end (dateFilter st)) t"
    using True by (simp add: withinBounds_def)
  ultimately show ?thesis by simp
next
  case False
  then show ?thesis
    by (auto simp add: getFilteredActivities_def Let_def keepActivity_eq)
qed

text \<open>
  With a lower bound at 08:20 on 15 January and no upper bound, the sleep of 08:00 is
  dropped, the sleep of 08:20 and the later diaper change are kept, and the bottle list
  is empty.
\<close>

theorem range_filter_contract_witness:
  "sleep (getFilteredActivities twoDayState)
     = [\<lparr>start = date_2024_01_15_0820, durationMinutes = 30\<rparr>]
   \<and> diaper (getFilteredActivities twoDayState) = [\<lparr>time = date_2024_01_16_0820\<rparr>]
   \<and> bottle (getFilteredActivities twoDayState) = []"
  using range_filter_contract [of twoDayState]
  by (simp add: twoDayState_def twoDayActivities_def withinBounds_def
      date_2024_01_15_0800_def date_2024_01_15_0820_def date_2024_01_16_0820_def)

subsection \<open>Default window\<close>

lemma Math_min_eq: "Math_min d ds = Min (set (d # ds))"
  unfolding Math_min_def by (rule Min.set_eq_fold [symmetric])

lemma Math_max_eq: "Math_max d ds = Max (set (d # ds))"
  unfolding Math_max_def by (rule Max.set_eq_fold [symmetric])

text \<open>
  C1, as the code has it. For a non-empty data set the initial start is the later of
  (today moved thirty calendar days back at the same local time of day) and the earliest
  instant in the data, and the initial end is the earlier of today and the latest instant
  in the data. The start is never before the earliest instant and the end never after
  the latest. The window is non-empty exactly when the moved instant is not after today,
  the moved instant is not after the latest instant in the data, and the earliest instant
  is not after today. This holds in every time zone: the host's change of offset is a
  free parameter.
\<close>

theorem default_window:
  assumes "getAllActivityDates st = d # ds"
  shows "filter_start (dateFilter (initializeDateFilter now offsetChange st))
           = Some (max (setDateThirtyBack now offsetChange) (Min (set (d # ds))))
         \<and> filter_end (dateFilter (initializeDateFilter now offsetChange st))
           = Some (min now (Max (set (d # ds))))
         \<and> Min (set (d # ds)) \<le> max (setDateThirtyBack now offsetChange) (Min (set (d # ds)))
         \<and> min now (Max (set (d # ds))) \<le> Max (set (d # ds))
         \<and> (max (setDateThirtyBack now offsetChange) (Min (set (d # ds)))
               \<le> min now (Max (set (d # ds)))
              \<longleftrightarrow> setDateThirtyBack now offsetChange \<le> now
                \<and> setDateThirtyBack now offsetChange \<le> Max (set (d # ds))
                \<and> Min (set (d # ds)) \<le> now)"
proof -
  define lo where "lo = Math_min d ds"
  define hi where "hi = Math_max d ds"
  define ago where "ago = setDateThirtyBack now offsetChange"
  have lo_eq: "Min (set (d # ds)) = lo" and hi_eq: "Max (set (d # ds)) = hi"
    by (simp_all only: lo_def hi_def Math_min_eq Math_max_eq)
  have "Min (set (d # ds)) \<le> d" "d \<le> Max (set (d # ds))"
    by simp_all
  then have mm: "lo \<le> hi"
    unfolding lo_eq hi_eq by (rule order_trans)
  have init: "dateFilter (initializeDateFilter now offsetChange st) =
      \<lparr>filter_start = Some (if ago > lo then ago else lo),
       filter_end = Some (if now < hi then now else hi)\<rparr>"
    using assms by (simp add: initializeDateFilter_def Let_def lo_def hi_def ago_def)
  show ?thesis
    unfolding lo_eq hi_eq init ago_def [symmetric] using mm by (auto simp: max_def min_def)
qed

text \<open>
  Records of 20 October and 1 November 2026, opened on 3 November 2026 at 12:00 on a host
  on UTC, where the offset does not change: the window runs from the first record to the
  last.
\<close>

theorem default_window_witness:
  "getAllActivityDates recentState = [1792485000000, 1793523600000]
   \<and> filter_start (dateFilter (initializeDateFilter exampleNow 0 recentState))
       = Some 1792485000000
   \<and> filter_end (dateFilter (initializeDateFilter exampleNow 0 recentState))
       = Some 1793523600000
   \<and> (1792485000000 :: int) \<le> 1793523600000"
proof -
  have h: "getAllActivityDates recentState = [1792485000000, 1793523600000]"
    by (simp add: getAllActivityDates_def recentState_def date_2026_10_20_0830_def
        date_2026_11_01_0900_def)
  from default_window [OF h, of exampleNow 0] h show ?thesis
    by (simp add: setDateThirtyBack_def exampleNow_def)
qed

text \<open>
  C1 as stated fails. On a host on UTC, with a single record of 15 January 2024, 20:00,
  and the clock at 3 November 2026, 12:00, the start is 4 October 2026, 12:00, not the
  later of (latest minus 30 days) and earliest, which is the record's own instant; it
  lies after the end and after the latest instant in the data. On a host in New York the
  same holds with the start at 4 October 2026, 07:00 local time.
\<close>

theorem default_window_counterexample:
  "getAllActivityDates staleState = [1705348800000]
   \<and> filter_start (dateFilter (initializeDateFilter exampleNow 0 staleState))
       = Some 1791115200000
   \<and> filter_end (dateFilter (initializeDateFilter exampleNow 0 staleState))
       = Some 1705348800000
   \<and> (1791115200000 :: int) \<noteq> max (1705348800000 - 30 * 86400000) 1705348800000
   \<and> \<not> (1791115200000 :: int) \<le> 1705348800000
   \<and> getAllActivityDates staleStateNewYork = [1705366800000]
   \<and> filter_start (dateFilter
         (initializeDateFilter exampleNow offsetChangeNewYork staleStateNewYork))
       = Some 1791111600000
   \<and> filter_end (dateFilter
         (initializeDateFilter exampleNow offsetChangeNewYork staleStateNewYork))
       = Some 1705366800000
   \<and> (1791111600000 :: int) \<noteq> max (1705366800000 - 30 * 86400000) 1705366800000
   \<and> \<not> (1791111600000 :: int) \<le> 1705366800000"
  by (simp add: initializeDateFilter_def getAllActivityDates_def staleState_def
      staleStateNewYork_def offsetChangeNewYork_def overnightActivities_def
      date_2024_01_15_2000_def date_2024_01_15_2000_EST_def exampleNow_def
      setDateThirtyBack_def Math_min_def Math_max_def Let_def)

section \<open>The overnight scenario\<close>

text \<open>
  C4. One sleep record that starts at minute 1200 and lasts 300 minutes, no other
  record and no filter: the distinct-day count is 1; the sleep intensity is 1 on the
  minutes before 60 and from 1200 on and 0 on all others; and the segmenter, at the default
  tolerance, returns the segments (0, 60, 1) and (1200, 1440, 1), in that order.
\<close>

theorem overnight_scenario:
  assumes "timeToMinutes d = 1200"
  shows "totalDays (calculateAllHeatmaps
            (getFilteredActivities \<lparr>activities = overnightActivities d, dateFilter = noFilter\<rparr>)) = 1
    \<and> (\<exists>data. heatmaps (calculateAllHeatmaps
            (getFilteredActivities \<lparr>activities = overnightActivities d, dateFilter = noFilter\<rparr>))
              ''sleep'' = Some data
          \<and> intensities data = map (\<lambda>m. if m < 60 \<or> 1200 \<le> m then 1 else 0) [0..<MINUTES_PER_DAY]
          \<and> findIntensityRuns (intensities data) defaultThreshold =
              [\<lparr>startMinute = 0, endMinute = 60, intensity = 1\<rparr>,
               \<lparr>startMinute = 1200, endMinute = MINUTES_PER_DAY, intensity = 1\<rparr>])"
proof -
  let ?a = "overnightActivities d"
  let ?r = "calculateDurationHeatmap [\<lparr>start = d, durationMinutes = 300\<rparr>]"
  let ?data = "withIntensities ''sleep'' 1 ?r"
  let ?f = "\<lambda>m::nat. if m < 60 \<or> 1200 \<le> m then 1 else 0 :: real"
  have filt: "getFilteredActivities \<lparr>activities = ?a, dateFilter = noFilter\<rparr> = ?a"
    by (simp add: getFilteredActivities_def noFilter_def)
  have seen: "datesSeen ?a = {getDateString d}"
    by (simp add: datesSeen_def overnightActivities_def)
  have D: "totalDays (calculateAllHeatmaps ?a) = 1"
    by (simp add: totalDays_eq seen)
  have hm: "heatmaps (calculateAllHeatmaps ?a) ''sleep'' = Some ?data"
    by (simp add: heatmaps_eq seen) (simp add: overnightActivities_def)
  have slot: "\<forall>m < MINUTES_PER_DAY. minuteDays ?r ! m =
                (if m < 60 \<or> 1200 \<le> m then {getDateString d} else {})"
    using assms by (auto simp: duration_nth marksMinute_def)
  have nth: "\<forall>m < MINUTES_PER_DAY. intensities ?data ! m = ?f m"
    using slot by (simp add: duration_length intensityOf_def)
  have len: "length (intensities ?data) = MINUTES_PER_DAY"
    by (simp add: duration_length)
  have ints: "intensities ?data = map ?f [0..<MINUTES_PER_DAY]"
    using len nth by (intro nth_equalityI) simp_all
  have runs: "findIntensityRuns (intensities ?data) defaultThreshold =
              [\<lparr>startMinute = 0, endMinute = 60, intensity = 1\<rparr>,
               \<lparr>startMinute = 1200, endMinute = MINUTES_PER_DAY, intensity = 1\<rparr>]"
    using len nth by (rule findIntensityRuns_overnight)
  show ?thesis
    unfolding filt using D hm ints runs by blast
qed

text \<open>
  The record of 15 January 2024, 20:00.
\<close>

theorem overnight_scenario_witness:
  "timeToMinutes date_2024_01_15_2000 = 1200
   \<and> totalDays (calculateAllHeatmaps (getFilteredActivities
        \<lparr>activities = overnightActivities date_2024_01_15_2000, dateFilter = noFilter\<rparr>)) = 1
   \<and> findIntensityRuns (intensities (the (heatmaps (calculateAllHeatmaps (getFilteredActivities
        \<lparr>activities = overnightActivities date_2024_01_15_2000, dateFilter = noFilter\<rparr>))
          ''sleep''))) defaultThreshold =
       [\<lparr>startMinute = 0, endMinute = 60, intensity = 1\<rparr>,
        \<lparr>startMinute = 1200, endMinute = MINUTES_PER_DAY, intensity = 1\<rparr>]"
proof -
  have h: "timeToMinutes date_2024_01_15_2000 = 1200"
    by (simp add: timeToMinutes_def date_2024_01_15_2000_def)
  from overnight_scenario [OF h] h show ?thesis by auto
qed

end
